theory Spec2Isabelle
  imports Main "HOL-Library.Sublist"
begin

text \<open>
  A model of the casefile extractor's analysis pipeline, as its two request handlers
  implement it: the streaming endpoint \<open>src/app/api/analyze/route.ts\<close>, which reads pages
  through the \<open>cheerio\<close> document parser, and the endpoint that answers with one JSON
  document, which reads pages with regular expressions. Both fetch a seed page, extract
  its outward links and image candidates, crawl the links, deduplicate the candidates,
  ask a language model for the people and places of the episode, and shape its answer into
  the result. What the platform and the libraries do (parsing a URL, a document or JSON,
  fetching, the model's answer) enters every definition as a parameter; everything else
  is the source, function by function and under its own names.
\<close>

section \<open>Strings as the program sees them\<close>

text \<open>
  The program is TypeScript; its strings are sequences of UTF-16 code units. A \<^typ>\<open>char\<close>
  here stands for one code unit, so \<^typ>\<open>string\<close> covers the strings whose code units are
  below 256. Every operation below works code unit by code unit, as the JavaScript one does.
\<close>

definition isWhiteSpace :: "char \<Rightarrow> bool" where
  \<comment> \<open>what \<open>\s\<close> and \<open>String.prototype.trim\<close> count as white space, below code unit 256\<close>
  "isWhiteSpace c =
     (c \<in> set [CHR 0x09, CHR 0x0A, CHR 0x0B, CHR 0x0C, CHR 0x0D, CHR 0x20, CHR 0xA0])"

definition isDigit :: "char \<Rightarrow> bool" where
  "isDigit c = (c \<in> set ''0123456789'')"

definition lowerChar :: "char \<Rightarrow> char" where
  \<comment> \<open>the lower-case form of a code unit below 256: \<open>A\<close> to \<open>Z\<close> and the accented capitals
      \<open>0xC0\<close> to \<open>0xDE\<close> (but not the multiplication sign \<open>0xD7\<close>) move up by 32\<close>
  "lowerChar c =
     (let n = (of_char c :: nat)
      in if (65 \<le> n \<and> n \<le> 90) \<or> (192 \<le> n \<and> n \<le> 222 \<and> n \<noteq> 215)
         then char_of (n + 32) else c)"

definition toLowerCase :: "string \<Rightarrow> string" where
  "toLowerCase s = map lowerChar s"

fun str_includes :: "string \<Rightarrow> string \<Rightarrow> bool" where
  \<comment> \<open>\<open>s.includes(sub)\<close>\<close>
  "str_includes [] sub = (sub = [])"
| "str_includes (c # cs) sub = (prefix sub (c # cs) \<or> str_includes cs sub)"

definition trimStart :: "string \<Rightarrow> string" where
  "trimStart s = dropWhile isWhiteSpace s"

definition trimEnd :: "string \<Rightarrow> string" where
  "trimEnd s = rev (dropWhile isWhiteSpace (rev s))"

definition trim :: "string \<Rightarrow> string" where
  "trim s = trimEnd (trimStart s)"

definition slice0 :: "nat \<Rightarrow> string \<Rightarrow> string" where
  \<comment> \<open>\<open>s.slice(0, n)\<close>\<close>
  "slice0 n s = take n s"

fun split_first :: "string \<Rightarrow> string \<Rightarrow> (string \<times> string) option" where
  \<comment> \<open>the text before and after the first occurrence of a non-empty separator\<close>
  "split_first sep [] = None"
| "split_first sep (c # cs) =
     (if prefix sep (c # cs) then Some ([], drop (length sep) (c # cs))
      else map_option (\<lambda>(before, after). (c # before, after)) (split_first sep cs))"

lemma split_first_shorter:
  "split_first sep s = Some (before, after) \<Longrightarrow> sep \<noteq> [] \<Longrightarrow> length after < length s"
proof (induction s arbitrary: before)
  case Nil
  then show ?case by simp
next
  case (Cons c cs)
  show ?case
  proof (cases "prefix sep (c # cs)")
    case True
    with Cons.prems show ?thesis by (cases sep) auto
  next
    case False
    with Cons.prems obtain b where "split_first sep cs = Some (b, after)"
      by (auto split: prod.splits)
    with Cons.IH Cons.prems(2) show ?thesis by fastforce
  qed
qed

function split :: "string \<Rightarrow> string \<Rightarrow> string list" where
  \<comment> \<open>\<open>s.split(sep)\<close>; an empty separator splits into code units\<close>
  "split sep s =
     (if sep = [] then map (\<lambda>c. [c]) s
      else case split_first sep s of
             None \<Rightarrow> [s]
           | Some (before, after) \<Rightarrow> before # split sep after)"
  by pat_completeness auto
termination
  by (relation "measure (\<lambda>(sep, s). length s)") (auto dest: split_first_shorter)

declare split.simps [simp del]

definition seg :: "string list \<Rightarrow> nat \<Rightarrow> string option" where
  \<comment> \<open>\<open>parts[i]\<close>: \<open>undefined\<close> (here \<open>None\<close>) beyond the end\<close>
  "seg parts i = (if i < length parts then Some (parts ! i) else None)"

section \<open>The regular expressions of the source, as backtracking matchers\<close>

text \<open>
  A matcher takes the rest of the pattern as a continuation and the text still to be read;
  it answers \<open>None\<close> when the pattern cannot match here. Greedy repetition tries the
  longest run first and gives characters back one at a time, lazy repetition the shortest
  first: the order in which a JavaScript regular expression explores its alternatives.
  Under the \<open>i\<close> flag a letter of the pattern matches itself in either case; the patterns
  of the source hold ASCII letters only.
\<close>

fun lit_ci :: "string \<Rightarrow> (string \<Rightarrow> 'r option) \<Rightarrow> string \<Rightarrow> 'r option" where
  \<comment> \<open>a literal (written in lower case) under the \<open>i\<close> flag\<close>
  "lit_ci [] k s = k s"
| "lit_ci (p # ps) k [] = None"
| "lit_ci (p # ps) k (c # cs) = (if lowerChar c = p then lit_ci ps k cs else None)"

fun one :: "(char \<Rightarrow> bool) \<Rightarrow> (string \<Rightarrow> 'r option) \<Rightarrow> string \<Rightarrow> 'r option" where
  "one P k [] = None"
| "one P k (c # cs) = (if P c then k cs else None)"

fun opt :: "(char \<Rightarrow> bool) \<Rightarrow> (string \<Rightarrow> 'r option) \<Rightarrow> string \<Rightarrow> 'r option" where
  \<comment> \<open>\<open>X?\<close>: take the character if it fits, else go on without it\<close>
  "opt P k [] = k []"
| "opt P k (c # cs) =
     (if P c then (case k cs of Some r \<Rightarrow> Some r | None \<Rightarrow> k (c # cs)) else k (c # cs))"

fun many :: "(char \<Rightarrow> bool) \<Rightarrow> nat \<Rightarrow> (string \<Rightarrow> 'r option) \<Rightarrow> string \<Rightarrow> 'r option" where
  \<comment> \<open>\<open>X*\<close> (\<open>m = 0\<close>) and \<open>X+\<close> (\<open>m = 1\<close>), greedy: read on while the characters
      fit; where the rest of the pattern then fails, stop one character earlier, as long as
      \<open>m\<close> characters have been read\<close>
  "many P m k [] = (if m = 0 then k [] else None)"
| "many P m k (c # cs) =
     (if P c
      then (case many P (m - 1) k cs of
              Some r \<Rightarrow> Some r
            | None \<Rightarrow> if m = 0 then k (c # cs) else None)
      else if m = 0 then k (c # cs) else None)"

fun lazy_any :: "(string \<Rightarrow> 'r option) \<Rightarrow> string \<Rightarrow> 'r option" where
  \<comment> \<open>\<open>[\s\S]*?\<close>: go on as early as the rest of the pattern allows\<close>
  "lazy_any k [] = k []"
| "lazy_any k (c # cs) = (case k (c # cs) of Some r \<Rightarrow> Some r | None \<Rightarrow> lazy_any k cs)"

definition consumed :: "string \<Rightarrow> string \<Rightarrow> string" where
  \<comment> \<open>what was read between two points of the text: a capture group\<close>
  "consumed start rest = take (length start - length rest) start"

fun search :: "(string \<Rightarrow> 'r option) \<Rightarrow> string \<Rightarrow> 'r option" where
  \<comment> \<open>\<open>s.match(re)\<close> without the \<open>g\<close> flag: the leftmost match\<close>
  "search m [] = m []"
| "search m (c # cs) = (case m (c # cs) of Some r \<Rightarrow> Some r | None \<Rightarrow> search m cs)"

fun scan :: "(string \<Rightarrow> ('c \<times> string) option) \<Rightarrow> nat \<Rightarrow> string \<Rightarrow> 'c list" where
  \<comment> \<open>the \<open>while ((match = re.exec(s)) !== null)\<close> loop of a \<open>g\<close> regular expression: every
      match from left to right, each search resuming where the last match ended. The matcher
      returns what it captured and the text after the match; \<open>skip\<close> counts the characters
      of the last match still to be passed.\<close>
  "scan m skip [] = []"
| "scan m skip (c # cs) =
     (if 0 < skip then scan m (skip - 1) cs
      else case m (c # cs) of
             Some (cap, rest) \<Rightarrow> cap # scan m (length (c # cs) - length rest - 1) cs
           | None \<Rightarrow> scan m 0 cs)"

fun replaceAll :: "(string \<Rightarrow> string option) \<Rightarrow> string \<Rightarrow> nat \<Rightarrow> string \<Rightarrow> string" where
  \<comment> \<open>\<open>s.replace(re, rep)\<close> for a \<open>g\<close> regular expression whose matches are not empty\<close>
  "replaceAll m rep skip [] = []"
| "replaceAll m rep skip (c # cs) =
     (if 0 < skip then replaceAll m rep (skip - 1) cs
      else case m (c # cs) of
             Some rest \<Rightarrow> rep @ replaceAll m rep (length (c # cs) - length rest - 1) cs
           | None \<Rightarrow> c # replaceAll m rep 0 cs)"

definition collapseWhiteSpace :: "string \<Rightarrow> string" where
  \<comment> \<open>\<open>s.replace(/\s+/g, ' ')\<close>\<close>
  "collapseWhiteSpace s = replaceAll (many isWhiteSpace 1 Some) '' '' 0 s"

section \<open>\<open>parseInt\<close>\<close>

definition digitValue :: "char \<Rightarrow> nat option" where
  "digitValue c =
     map_of (zip ''0123456789abcdefABCDEF''
                 [0, 1, 2, 3, 4, 5, 6, 7, 8, 9, 10, 11, 12, 13, 14, 15, 10, 11, 12, 13, 14, 15]) c"

definition isRadixDigit :: "nat \<Rightarrow> char \<Rightarrow> bool" where
  "isRadixDigit radix c = (case digitValue c of None \<Rightarrow> False | Some d \<Rightarrow> d < radix)"

definition digitsValue :: "nat \<Rightarrow> string \<Rightarrow> nat" where
  "digitsValue radix ds = foldl (\<lambda>acc c. acc * radix + (case digitValue c of Some d \<Rightarrow> d | None \<Rightarrow> 0)) 0 ds"

definition parseInt :: "string \<Rightarrow> int option" where
  \<comment> \<open>\<open>parseInt(s)\<close> with no radix given; \<open>None\<close> is \<open>NaN\<close>. The result is the exact
      integer: JavaScript rounds it to a double beyond \<open>2^53\<close>, which no comparison with a
      small constant can see.\<close>
  "parseInt s =
     (let s1 = trimStart s;
          negative = (case s1 of c # _ \<Rightarrow> c = CHR ''-'' | [] \<Rightarrow> False);
          s2 = (case s1 of c # cs \<Rightarrow> if c = CHR ''+'' \<or> c = CHR ''-'' then cs else s1 | [] \<Rightarrow> s1);
          hex = (length s2 \<ge> 2 \<and> toLowerCase (take 2 s2) = ''0x'');
          radix = (if hex then 16 else 10);
          s3 = (if hex then drop 2 s2 else s2);
          ds = takeWhile (isRadixDigit radix) s3
      in if ds = [] then None
         else Some (if negative then - int (digitsValue radix ds) else int (digitsValue radix ds)))"

section \<open>Values that may be missing\<close>

text \<open>
  An attribute or a field that is not there reads as \<open>undefined\<close>, here \<open>None\<close>. The source
  tests such values for truth (\<open>!x\<close>, \<open>a || b\<close>): \<open>undefined\<close> and the empty string are false.
\<close>

definition truthy :: "string option \<Rightarrow> bool" where
  "truthy v = (case v of None \<Rightarrow> False | Some s \<Rightarrow> s \<noteq> [])"

definition orElse :: "string option \<Rightarrow> string option \<Rightarrow> string option" where
  \<comment> \<open>\<open>a || b\<close>\<close>
  "orElse a b = (if truthy a then a else b)"

definition orDefault :: "string option \<Rightarrow> string \<Rightarrow> string" where
  \<comment> \<open>\<open>a || 'literal'\<close>\<close>
  "orDefault a d = (case a of None \<Rightarrow> d | Some s \<Rightarrow> if s = [] then d else s)"

section \<open>URLs\<close>

text \<open>
  \<open>new URL(input, base)\<close> is the platform's parser. Its result is the URL record of the URL
  standard; the parser itself is a parameter of everything that calls it, answering
  \<open>None\<close> where the constructor throws.
\<close>

record URL =
  scheme :: string
  username :: string
  password :: string
  host :: string
  port :: "string option"
  path :: string
  query :: "string option"
  fragment :: "string option"

type_synonym url_parser = "string \<Rightarrow> string option \<Rightarrow> URL option"

definition protocol :: "URL \<Rightarrow> string" where
  "protocol u = scheme u @ '':''"

definition hostname :: "URL \<Rightarrow> string" where
  "hostname u = host u"

definition pathname :: "URL \<Rightarrow> string" where
  "pathname u = path u"

definition href :: "URL \<Rightarrow> string" where
  \<comment> \<open>the serialization of a URL that has a host, as every http and https URL has\<close>
  "href u =
     scheme u @ ''://''
     @ (if username u \<noteq> [] \<or> password u \<noteq> []
        then username u @ (if password u \<noteq> [] then '':'' @ password u else []) @ ''@''
        else [])
     @ host u
     @ (case port u of None \<Rightarrow> [] | Some p \<Rightarrow> '':'' @ p)
     @ path u
     @ (case query u of None \<Rightarrow> [] | Some q \<Rightarrow> ''?'' @ q)
     @ (case fragment u of None \<Rightarrow> [] | Some f \<Rightarrow> ''#'' @ f)"

definition normalizeUrl :: "url_parser \<Rightarrow> string \<Rightarrow> string \<Rightarrow> string option" where
  "normalizeUrl parse u baseUrl =
     (case parse u (Some baseUrl) of
        None \<Rightarrow> None
      | Some absolute \<Rightarrow>
          if protocol absolute \<notin> set [''http:'', ''https:''] then None
          else Some (href (absolute\<lparr>fragment := None\<rparr>)))"

definition imageExtensions :: "string list" where
  "imageExtensions = [''.jpg'', ''.jpeg'', ''.png'', ''.gif'', ''.webp'']"

definition isImageUrl :: "string \<Rightarrow> bool" where
  "isImageUrl u =
     (let lower = toLowerCase u
      in list_ex (\<lambda>ext. str_includes lower ext) imageExtensions)"

section \<open>Configuration and data\<close>

record CONFIG =
  maxSources :: nat
  maxImagesPerPage :: nat
  fetchTimeout :: nat
  delayBetweenRequests :: nat
  userAgent :: string

definition CONFIG_stream :: CONFIG where
  \<comment> \<open>\<open>src/app/api/analyze/route.ts\<close>, the streaming endpoint\<close>
  "CONFIG_stream = \<lparr> maxSources = 12, maxImagesPerPage = 8, fetchTimeout = 10000,
     delayBetweenRequests = 600,
     userAgent = ''Mozilla/5.0 (Macintosh; Intel Mac OS X 10_15_7) AppleWebKit/537.36'' \<rparr>"

definition CONFIG_json :: CONFIG where
  \<comment> \<open>the endpoint that answers with one JSON document\<close>
  "CONFIG_json = \<lparr> maxSources = 10, maxImagesPerPage = 6, fetchTimeout = 8000,
     delayBetweenRequests = 500,
     userAgent = ''Mozilla/5.0 (Macintosh; Intel Mac OS X 10_15_7) AppleWebKit/537.36'' \<rparr>"

record ImageCandidate =
  url :: string
  alt :: string
  caption :: string
  img_context :: string
  sourcePageUrl :: string
  sourcePageTitle :: string

record SourcePage =
  sp_url :: string
  sp_title :: string
  sp_text :: string

definition set_add :: "string list \<Rightarrow> string \<Rightarrow> string list" where
  \<comment> \<open>\<open>Set.prototype.add\<close>: a \<open>Set\<close> keeps its members in the order they were first added\<close>
  "set_add members x = (if x \<in> set members then members else members @ [x])"

section \<open>The streaming endpoint: extraction over the parsed document\<close>

text \<open>
  \<open>cheerio.load(html)\<close> parses the page, and the source reads the document through
  selector queries only. The records below hold the answers to exactly the queries the
  source makes; the library call is a parameter that gives them for a page.
  \<open>extractImagesFromPage\<close> first removes the navigation, footer, side bar and
  advertisement elements from the document it has loaded: an image element says whether
  it lies inside one of these.
\<close>

record img_el =
  in_removed :: bool
    \<comment> \<open>the element lies inside one that matches \<open>nav, footer, aside, .sidebar,
        .navigation, .menu, .widget, .ad, .advertisement\<close>\<close>
  attr :: "string \<Rightarrow> string option"
    \<comment> \<open>\<open>$img.attr(name)\<close>\<close>
  figcaption_text :: "string option"
    \<comment> \<open>\<open>$img.closest('figure')\<close>: \<open>None\<close> when there is none, else
        \<open>$figure.find('figcaption').text()\<close>\<close>
  parent_caption_text :: string
    \<comment> \<open>\<open>$img.parent().find('.caption, .wp-caption-text').text()\<close>\<close>
  container_text :: "string option"
    \<comment> \<open>\<open>$img.closest('p, div, article, section').first()\<close>: \<open>None\<close> when there is none,
        else its \<open>text()\<close>\<close>

record region =
  region_text :: string
    \<comment> \<open>\<open>$content.text()\<close>\<close>
  region_hrefs :: "string list"
    \<comment> \<open>the \<open>href\<close> of each \<open>$content.find('a[href]')\<close>, in document order\<close>

record document =
  h1_text :: string
    \<comment> \<open>\<open>$('h1').first().text()\<close>, which \<open>$('h1.entry-title, h1.post-title, h1').first()\<close>
        selects as well\<close>
  title_text :: string
    \<comment> \<open>\<open>$('title').text()\<close>\<close>
  first_of :: "string \<Rightarrow> region option"
    \<comment> \<open>\<open>$(sel).first()\<close> for a content selector; \<open>None\<close> when \<open>$(sel).length\<close> is 0\<close>
  body_region :: region
    \<comment> \<open>\<open>$('body')\<close>\<close>
  anchors :: "(string \<times> string) list"
    \<comment> \<open>for each \<open>$('a[href]')\<close>: \<open>$el.parent().text()\<close> and the \<open>href\<close>\<close>
  main_text :: string
    \<comment> \<open>\<open>$('article, main, .content, body').first().text()\<close>\<close>
  img_els :: "img_el list"
    \<comment> \<open>\<open>$('img')\<close>, in document order; the texts an element carries are read once the
        elements above are removed\<close>
  og_image :: "string option"
  og_title :: "string option"
  og_description :: "string option"
    \<comment> \<open>\<open>$('meta[property="og:..."]').attr('content')\<close>, after the same removal\<close>

type_synonym cheerio = "string \<Rightarrow> document"

record EpisodeData =
  ep_title :: string
  ep_text :: string
  sourceLinks :: "string list"

definition content_links :: "url_parser \<Rightarrow> string \<Rightarrow> string list \<Rightarrow> string list \<Rightarrow> string list" where
  \<comment> \<open>the first \<open>each\<close> of \<open>extractEpisodeData\<close>\<close>
  "content_links parse seedUrl hrefs links0 =
     foldl (\<lambda>links href.
              if href = [] then links
              else case normalizeUrl parse href seedUrl of
                     None \<Rightarrow> links
                   | Some normalized \<Rightarrow>
                       if \<not> str_includes normalized ''casefilepodcast.com''
                       then set_add links normalized else links)
           links0 hrefs"

definition section_links :: "url_parser \<Rightarrow> string \<Rightarrow> (string \<times> string) list \<Rightarrow> string list \<Rightarrow> string list" where
  \<comment> \<open>the second \<open>each\<close> of \<open>extractEpisodeData\<close>\<close>
  "section_links parse seedUrl as links0 =
     foldl (\<lambda>links (parentText0, href).
              let parentText = toLowerCase parentText0 in
              if href = [] then links
              else case normalizeUrl parse href seedUrl of
                     None \<Rightarrow> links
                   | Some normalized \<Rightarrow>
                       if str_includes parentText ''source'' \<or> str_includes parentText ''reference''
                       then (if \<not> str_includes normalized ''casefilepodcast.com''
                             then set_add links normalized else links)
                       else links)
           links0 as"

definition contentSelectors :: "string list" where
  "contentSelectors = [''article .entry-content'', ''.post-content'', ''.entry-content'',
                       ''article'', ''main'']"

fun select_content :: "document \<Rightarrow> string list \<Rightarrow> region option" where
  \<comment> \<open>\<open>for (const sel of contentSelectors) { if ($(sel).length) { ...; break } }\<close>\<close>
  "select_content d [] = None"
| "select_content d (sel # sels) =
     (case first_of d sel of Some r \<Rightarrow> Some r | None \<Rightarrow> select_content d sels)"

definition extractEpisodeData :: "cheerio \<Rightarrow> url_parser \<Rightarrow> string \<Rightarrow> string \<Rightarrow> EpisodeData" where
  "extractEpisodeData load parse html seedUrl =
     (let d = load html;
          title = orDefault (orElse (Some (trim (h1_text d)))
                                    (Some (trim (hd (split ''|'' (title_text d))))))
                            ''Unknown Episode'';
          content = (case select_content d contentSelectors of
                       Some r \<Rightarrow> r | None \<Rightarrow> body_region d);
          text = slice0 12000 (trim (collapseWhiteSpace (region_text content)));
          links = section_links parse seedUrl (anchors d)
                    (content_links parse seedUrl (region_hrefs content) [])
      in \<lparr> ep_title = title, ep_text = text,
           sourceLinks = take (maxSources CONFIG_stream) links \<rparr>)"

definition tiny :: "int option \<Rightarrow> bool" where
  \<comment> \<open>\<open>n > 0 && n < 100\<close>; every comparison with \<open>NaN\<close> is false\<close>
  "tiny n = (case n of None \<Rightarrow> False | Some v \<Rightarrow> 0 < v \<and> v < 100)"

definition image_of_el :: "url_parser \<Rightarrow> string \<Rightarrow> string \<Rightarrow> img_el \<Rightarrow> ImageCandidate option" where
  \<comment> \<open>the body of the \<open>$('img').each\<close> callback of \<open>extractImagesFromPage\<close>, below its
      first line: the candidate it pushes, or \<open>None\<close> where it returns without pushing\<close>
  "image_of_el parse pageUrl pageTitle el =
     (let src = orElse (attr el ''src'') (orElse (attr el ''data-src'') (attr el ''data-lazy-src''))
      in
      if \<not> truthy src then None
      else
        (case normalizeUrl parse (the src) pageUrl of
           None \<Rightarrow> None
         | Some imageUrl \<Rightarrow>
            (if \<not> isImageUrl imageUrl then None
             else
               (let width = parseInt (orDefault (attr el ''width'') ''0'');
                    height = parseInt (orDefault (attr el ''height'') ''0'')
                in
                if tiny width \<or> tiny height then None
                else
                  (let alt0 = orDefault (attr el ''alt'') [];
                       title = orDefault (attr el ''title'') [];
                       caption0 = (case figcaption_text el of
                                     Some t \<Rightarrow> trim t | None \<Rightarrow> []);
                       caption1 = (if caption0 = [] then trim (parent_caption_text el)
                                   else caption0);
                       context0 = (case container_text el of
                                    Some t \<Rightarrow> slice0 250 (trim (collapseWhiteSpace t))
                                  | None \<Rightarrow> [])
                   in Some \<lparr> url = imageUrl,
                             alt = (if alt0 = [] then title else alt0),
                             caption = caption1, img_context = context0,
                             sourcePageUrl = pageUrl,
                             sourcePageTitle = pageTitle \<rparr>)))))"

fun images_each :: "url_parser \<Rightarrow> string \<Rightarrow> string \<Rightarrow> img_el list \<Rightarrow> ImageCandidate list \<Rightarrow> ImageCandidate list" where
  \<comment> \<open>\<open>$('img').each(...)\<close>; the callback's first line returns \<open>false\<close>, which ends the
      iteration, once the page's cap is reached\<close>
  "images_each parse pageUrl pageTitle [] images = images"
| "images_each parse pageUrl pageTitle (el # els) images =
     (if length images \<ge> maxImagesPerPage CONFIG_stream then images
      else (case image_of_el parse pageUrl pageTitle el of
              None \<Rightarrow> images_each parse pageUrl pageTitle els images
            | Some img \<Rightarrow> images_each parse pageUrl pageTitle els (images @ [img])))"

definition extractImagesFromPage :: "cheerio \<Rightarrow> url_parser \<Rightarrow> string \<Rightarrow> string \<Rightarrow> string \<Rightarrow> ImageCandidate list" where
  "extractImagesFromPage load parse html pageUrl pageTitle =
     (let d = load html;
          images = images_each parse pageUrl pageTitle
                     (filter (\<lambda>el. \<not> in_removed el) (img_els d)) []
      in
      if truthy (og_image d) \<and> length images < maxImagesPerPage CONFIG_stream
      then
        (case normalizeUrl parse (the (og_image d)) pageUrl of
           None \<Rightarrow> images
         | Some imageUrl \<Rightarrow>
             if isImageUrl imageUrl
             then images @ [\<lparr> url = imageUrl,
                              alt = orDefault (og_title d) [],
                              caption = orDefault (og_description d) [],
                              img_context = [],
                              sourcePageUrl = pageUrl, sourcePageTitle = pageTitle \<rparr>]
             else images)
      else images)"

section \<open>The JSON endpoint: extraction by regular expressions over the raw page\<close>

definition isQuote :: "char \<Rightarrow> bool" where
  \<comment> \<open>\<open>["']\<close>\<close>
  "isQuote c = (c = CHR 0x22 \<or> c = CHR 0x27)"

definition notQuote :: "char \<Rightarrow> bool" where
  \<comment> \<open>\<open>[^"']\<close>\<close>
  "notQuote c = (\<not> isQuote c)"

definition isGt :: "char \<Rightarrow> bool" where
  "isGt c = (c = CHR ''>'')"

definition notGt :: "char \<Rightarrow> bool" where
  \<comment> \<open>\<open>[^>]\<close>\<close>
  "notGt c = (c \<noteq> CHR ''>'')"

definition isLt :: "char \<Rightarrow> bool" where
  "isLt c = (c = CHR ''<'')"

definition notLt :: "char \<Rightarrow> bool" where
  \<comment> \<open>\<open>[^<]\<close>\<close>
  "notLt c = (c \<noteq> CHR ''<'')"

definition script_re :: "string \<Rightarrow> string option" where
  \<comment> \<open>\<open>/<script[^>]*>[\s\S]*?<\/script>/gi\<close>\<close>
  "script_re = lit_ci ''<script'' (many notGt 0 (one isGt (lazy_any (lit_ci ''</script>'' Some))))"

definition style_re :: "string \<Rightarrow> string option" where
  \<comment> \<open>\<open>/<style[^>]*>[\s\S]*?<\/style>/gi\<close>\<close>
  "style_re = lit_ci ''<style'' (many notGt 0 (one isGt (lazy_any (lit_ci ''</style>'' Some))))"

definition tag_re :: "string \<Rightarrow> string option" where
  \<comment> \<open>\<open>/<[^>]+>/g\<close>\<close>
  "tag_re = one isLt (many notGt 1 (one isGt Some))"

definition extractTextContent :: "string \<Rightarrow> string" where
  "extractTextContent html =
     trim (collapseWhiteSpace
            (replaceAll tag_re '' '' 0
              (replaceAll style_re [] 0
                (replaceAll script_re [] 0 html))))"

definition h1_re :: "string \<Rightarrow> string option" where
  \<comment> \<open>\<open>/<h1[^>]*>([^<]+)<\/h1>/i\<close>, giving group 1\<close>
  "h1_re = lit_ci ''<h1'' (many notGt 0 (one isGt (\<lambda>start.
             many notLt 1 (\<lambda>rest. lit_ci ''</h1>'' (\<lambda>_. Some (consumed start rest)) rest) start)))"

definition title_re :: "string \<Rightarrow> string option" where
  \<comment> \<open>\<open>/<title[^>]*>([^<]+)<\/title>/i\<close>, giving group 1\<close>
  "title_re = lit_ci ''<title'' (many notGt 0 (one isGt (\<lambda>start.
                many notLt 1 (\<lambda>rest. lit_ci ''</title>'' (\<lambda>_. Some (consumed start rest)) rest) start)))"

definition extractTitle :: "string \<Rightarrow> string" where
  "extractTitle html =
     (case search h1_re html of
        Some h1 \<Rightarrow> trim h1
      | None \<Rightarrow>
          (case search title_re html of
             Some t \<Rightarrow> trim (hd (split ''|'' t))
           | None \<Rightarrow> ''Untitled''))"

definition a_re :: "string \<Rightarrow> (string \<times> string) option" where
  \<comment> \<open>\<open>/<a[^>]+href=["']([^"']+)["'][^>]*>/gi\<close>, giving group 1 and the text after the match\<close>
  "a_re = lit_ci ''<a'' (many notGt 1 (lit_ci ''href='' (one isQuote (\<lambda>start.
            many notQuote 1 (\<lambda>afterGroup.
              one isQuote (many notGt 0 (one isGt (\<lambda>rest.
                Some (consumed start afterGroup, rest)))) afterGroup) start))))"

definition extractLinks :: "url_parser \<Rightarrow> string \<Rightarrow> string \<Rightarrow> string list" where
  "extractLinks parse html baseUrl =
     (let links = List.map_filter
                    (\<lambda>m. case normalizeUrl parse m baseUrl of
                           None \<Rightarrow> None
                         | Some normalized \<Rightarrow>
                             if \<not> str_includes normalized ''casefilepodcast.com''
                             then Some normalized else None)
                    (scan a_re 0 html)
      in take (maxSources CONFIG_json) (foldl set_add [] links))"

definition img_re :: "string \<Rightarrow> ((string \<times> string) \<times> string) option" where
  \<comment> \<open>\<open>/<img[^>]+src=["']([^"']+)["'][^>]*>/gi\<close>, giving the whole match, group 1, and the
      text after the match\<close>
  "img_re s = lit_ci ''<img'' (many notGt 1 (lit_ci ''src='' (one isQuote (\<lambda>start.
                many notQuote 1 (\<lambda>afterGroup.
                  one isQuote (many notGt 0 (one isGt (\<lambda>rest.
                    Some ((consumed s rest, consumed start afterGroup), rest)))) afterGroup)
                  start)))) s"

definition alt_re :: "string \<Rightarrow> string option" where
  \<comment> \<open>\<open>/alt=["']([^"']*)["']/i\<close>, giving group 1\<close>
  "alt_re = lit_ci ''alt='' (one isQuote (\<lambda>start.
              many notQuote 0 (\<lambda>afterGroup.
                one isQuote (\<lambda>_. Some (consumed start afterGroup)) afterGroup) start))"

definition width_re :: "string \<Rightarrow> string option" where
  \<comment> \<open>\<open>/width=["']?(\d+)/i\<close>, giving group 1\<close>
  "width_re = lit_ci ''width='' (opt isQuote (\<lambda>start.
                many isDigit 1 (\<lambda>rest. Some (consumed start rest)) start))"

definition og_re :: "string \<Rightarrow> string option" where
  \<comment> \<open>\<open>/<meta[^>]+property=["']og:image["'][^>]+content=["']([^"']+)["']/i\<close>, giving group 1\<close>
  "og_re = lit_ci ''<meta'' (many notGt 1 (lit_ci ''property='' (one isQuote
             (lit_ci ''og:image'' (one isQuote (many notGt 1 (lit_ci ''content='' (one isQuote
               (\<lambda>start. many notQuote 1 (\<lambda>afterGroup.
                  one isQuote (\<lambda>_. Some (consumed start afterGroup)) afterGroup) start)))))))))"

definition lessThan100 :: "int option \<Rightarrow> bool" where
  \<comment> \<open>\<open>width < 100\<close>\<close>
  "lessThan100 n = (case n of None \<Rightarrow> False | Some v \<Rightarrow> v < 100)"

definition image_of_match :: "url_parser \<Rightarrow> string \<Rightarrow> string \<Rightarrow> string \<times> string \<Rightarrow> ImageCandidate option" where
  \<comment> \<open>the body of the \<open>while\<close> loop of \<open>extractImages\<close> for one match: the candidate it
      pushes, or \<open>None\<close> where it says \<open>continue\<close>\<close>
  "image_of_match parse pageUrl pageTitle m =
     (let src = fst m; srcUrl = snd m in
      case normalizeUrl parse srcUrl pageUrl of
        None \<Rightarrow> None
      | Some imageUrl \<Rightarrow>
         (if \<not> isImageUrl imageUrl then None
          else
            (let alt0 = (case search alt_re src of Some a \<Rightarrow> a | None \<Rightarrow> []);
                 width = (case search width_re src of
                            Some w \<Rightarrow> parseInt w | None \<Rightarrow> Some 999)
             in if lessThan100 width then None
                else Some \<lparr> url = imageUrl, alt = alt0, caption = [], img_context = [],
                            sourcePageUrl = pageUrl, sourcePageTitle = pageTitle \<rparr>)))"

fun images_while :: "url_parser \<Rightarrow> string \<Rightarrow> string \<Rightarrow> (string \<times> string) list \<Rightarrow> ImageCandidate list \<Rightarrow> ImageCandidate list" where
  \<comment> \<open>\<open>while ((match = regex.exec(html)) !== null && images.length < CONFIG.maxImagesPerPage)\<close>,
      over the matches in order\<close>
  "images_while parse pageUrl pageTitle [] images = images"
| "images_while parse pageUrl pageTitle (m # ms) images =
     (if \<not> length images < maxImagesPerPage CONFIG_json then images
      else (case image_of_match parse pageUrl pageTitle m of
              None \<Rightarrow> images_while parse pageUrl pageTitle ms images
            | Some img \<Rightarrow> images_while parse pageUrl pageTitle ms (images @ [img])))"

definition extractImages :: "url_parser \<Rightarrow> string \<Rightarrow> string \<Rightarrow> string \<Rightarrow> ImageCandidate list" where
  "extractImages parse html pageUrl pageTitle =
     (let images = images_while parse pageUrl pageTitle (scan img_re 0 html) []
      in
      case search og_re html of
        None \<Rightarrow> images
      | Some og \<Rightarrow>
         (if length images < maxImagesPerPage CONFIG_json
          then (case normalizeUrl parse og pageUrl of
                  None \<Rightarrow> images
                | Some imageUrl \<Rightarrow>
                    if isImageUrl imageUrl
                    then images @ [\<lparr> url = imageUrl, alt = pageTitle, caption = [],
                                     img_context = [], sourcePageUrl = pageUrl,
                                     sourcePageTitle = pageTitle \<rparr>]
                    else images)
          else images))"

section \<open>The prompt\<close>

function show_nat :: "nat \<Rightarrow> string" where
  \<comment> \<open>a non-negative integer inside a template literal: its decimal digits\<close>
  "show_nat n =
     (if n < 10 then [''0123456789'' ! n]
      else show_nat (n div 10) @ [''0123456789'' ! (n mod 10)])"
  by pat_completeness auto
termination
  by (relation "measure id") auto

declare show_nat.simps [simp del]

definition join :: "string \<Rightarrow> string list \<Rightarrow> string" where
  \<comment> \<open>\<open>parts.join(sep)\<close>\<close>
  "join sep parts = (case parts of [] \<Rightarrow> [] | p # ps \<Rightarrow> foldl (\<lambda>acc q. acc @ sep @ q) p ps)"

definition image_entry_stream :: "nat \<Rightarrow> ImageCandidate \<Rightarrow> string" where
  \<open>image_entry_stream i img =
     ''[IMG_''
     @ show_nat i
     @ '']\<newline>''
     @ ''  URL: ''
     @ url img
     @ ''\<newline>''
     @ ''  Alt: ''
     @ (if alt img = [] then ''(none)'' else alt img)
     @ ''\<newline>''
     @ ''  Caption: ''
     @ (if caption img = [] then ''(none)'' else caption img)
     @ ''\<newline>''
     @ ''  Context: ''
     @ (if slice0 200 (img_context img) = [] then ''(none)'' else slice0 200 (img_context img))
     @ ''\<newline>''
     @ ''  Source: ''
     @ sourcePageTitle img
     @ '' (''
     @ sourcePageUrl img
     @ '')''\<close>

definition source_entry_stream :: "SourcePage \<Rightarrow> string" where
  \<open>source_entry_stream p =
     ''--- SOURCE: ''
     @ sp_title p
     @ '' (''
     @ sp_url p
     @ '') ---\<newline>''
     @ slice0 2500 (sp_text p)\<close>

definition buildPrompt_stream :: "string \<Rightarrow> string \<Rightarrow> SourcePage list \<Rightarrow> ImageCandidate list \<Rightarrow> string" where
  \<open>buildPrompt_stream episodeTitle episodeText pages candidates =
     (let imageList = join ''\<newline>\<newline>''
            (map (\<lambda>(i, img). image_entry_stream i img) (zip [0 ..< length candidates] candidates));
          sourceTexts = join ''\<newline>\<newline>'' (map source_entry_stream (take 8 pages))
      in
     ''You are analyzing a true crime podcast episode to extract key people, locations, and match relevant images.\<newline>''
     @ ''\<newline>''
     @ ''EPISODE: "''
     @ episodeTitle
     @ ''"\<newline>''
     @ ''\<newline>''
     @ ''<EPISODE_TEXT>\<newline>''
     @ slice0 10000 episodeText
     @ ''\<newline>''
     @ ''</EPISODE_TEXT>\<newline>''
     @ ''\<newline>''
     @ ''<SOURCE_TEXTS>\<newline>''
     @ sourceTexts
     @ ''\<newline>''
     @ ''</SOURCE_TEXTS>\<newline>''
     @ ''\<newline>''
     @ ''<IMAGE_CANDIDATES>\<newline>''
     @ imageList
     @ ''\<newline>''
     @ ''</IMAGE_CANDIDATES>\<newline>''
     @ ''\<newline>''
     @ ''TASK: Extract the main characters (people) and key locations from this case. Match each entity with relevant images from the candidates.\<newline>''
     @ ''\<newline>''
     @ ''RULES:\<newline>''
     @ ''1. Focus on the MAIN people: victims, suspects/perpetrators, key investigators, important witnesses\<newline>''
     @ ''2. Include key LOCATIONS: crime scene, important places mentioned\<newline>''
     @ ''3. Only use images from IMAGE_CANDIDATES - reference by IMG_X index\<newline>''
     @ ''4. For PRONOUNS: only include if explicitly stated or clearly implied in text. Use format "he/him", "she/her", "they/them", or "" if unknown\<newline>''
     @ ''5. For image metadata: only include what''
     @ [CHR 0x27]
     @ ''s explicitly stated. Use empty string "" or empty array [] if unknown\<newline>''
     @ ''6. Keep descriptions factual and from the source material only\<newline>''
     @ ''\<newline>''
     @ ''OUTPUT FORMAT: Return ONLY valid JSON (no markdown, no explanation):\<newline>''
     @ ''\<newline>''
     @ ''{\<newline>''
     @ ''  "episode_title": "string",\<newline>''
     @ ''  "summary": "2-3 sentence overview of the case",\<newline>''
     @ ''  "entities": [\<newline>''
     @ ''    {\<newline>''
     @ ''      "name": "Full Name",\<newline>''
     @ ''      "type": "Person | Location | Organization",\<newline>''
     @ ''      "role": "victim | suspect | perpetrator | investigator | witness | location | other",\<newline>''
     @ ''      "description": "1-2 factual sentences about this entity",\<newline>''
     @ ''      "pronouns": "he/him or she/her or they/them or empty string",\<newline>''
     @ ''      "images": [\<newline>''
     @ ''        {\<newline>''
     @ ''          "image_index": 0,\<newline>''
     @ ''          "relevance": "brief description of why this image relates to this entity",\<newline>''
     @ ''          "people_shown": ["names if explicitly stated"],\<newline>''
     @ ''          "date": "YYYY-MM-DD or empty string",\<newline>''
     @ ''          "location": "location name or empty string"\<newline>''
     @ ''        }\<newline>''
     @ ''      ]\<newline>''
     @ ''    }\<newline>''
     @ ''  ]\<newline>''
     @ ''}'')\<close>

definition image_entry_json :: "nat \<Rightarrow> ImageCandidate \<Rightarrow> string" where
  \<open>image_entry_json i img =
     ''[IMG_''
     @ show_nat i
     @ ''] URL: ''
     @ url img
     @ '' | Alt: ''
     @ (if alt img = [] then ''(none)'' else alt img)
     @ '' | Source: ''
     @ sourcePageTitle img\<close>

definition source_entry_json :: "SourcePage \<Rightarrow> string" where
  \<open>source_entry_json p =
     ''--- SOURCE: ''
     @ sp_title p
     @ '' ---\<newline>''
     @ slice0 2000 (sp_text p)\<close>

definition buildPrompt_json :: "string \<Rightarrow> string \<Rightarrow> SourcePage list \<Rightarrow> ImageCandidate list \<Rightarrow> string" where
  \<open>buildPrompt_json episodeTitle episodeText pages candidates =
     (let shown = take 30 candidates;
          imageList = join ''\<newline>''
            (map (\<lambda>(i, img). image_entry_json i img) (zip [0 ..< length shown] shown));
          sourceTexts = join ''\<newline>\<newline>'' (map source_entry_json (take 6 pages))
      in
     ''Analyze this true crime podcast episode and extract key people and locations.\<newline>''
     @ ''\<newline>''
     @ ''EPISODE: "''
     @ episodeTitle
     @ ''"\<newline>''
     @ ''\<newline>''
     @ ''EPISODE TEXT:\<newline>''
     @ slice0 8000 episodeText
     @ ''\<newline>''
     @ ''\<newline>''
     @ ''SOURCE TEXTS:\<newline>''
     @ sourceTexts
     @ ''\<newline>''
     @ ''\<newline>''
     @ ''IMAGE CANDIDATES:\<newline>''
     @ imageList
     @ ''\<newline>''
     @ ''\<newline>''
     @ ''Extract the main people (victims, suspects, investigators) and key locations. Match relevant images.\<newline>''
     @ ''\<newline>''
     @ ''RULES:\<newline>''
     @ ''- Only use images from the list above (reference by IMG_X)\<newline>''
     @ ''- For pronouns: only include if clearly stated (he/him, she/her, they/them, or empty string)\<newline>''
     @ ''- Keep descriptions factual, from source material only\<newline>''
     @ ''\<newline>''
     @ ''Return ONLY valid JSON:\<newline>''
     @ ''{\<newline>''
     @ ''  "episode_title": "string",\<newline>''
     @ ''  "summary": "2-3 sentence case overview",\<newline>''
     @ ''  "entities": [\<newline>''
     @ ''    {\<newline>''
     @ ''      "name": "Full Name",\<newline>''
     @ ''      "type": "Person or Location",\<newline>''
     @ ''      "role": "victim/suspect/investigator/witness/location/other",\<newline>''
     @ ''      "description": "1-2 factual sentences",\<newline>''
     @ ''      "pronouns": "he/him or she/her or they/them or empty",\<newline>''
     @ ''      "images": [{ "image_index": 0, "relevance": "why this image relates" }]\<newline>''
     @ ''    }\<newline>''
     @ ''  ]\<newline>''
     @ ''}'')\<close>

section \<open>The model's answer and the result\<close>

text \<open>
  The model is asked for a JSON object of the shape written in the prompt. The records
  below are that shape as the source reads it, every field optional: a field that is absent
  (or \<open>null\<close>) is \<open>None\<close>. The source itself types the answer as \<open>any\<close>; answers of
  another shape (an \<open>image_index\<close> that is not an integer, an \<open>entities\<close> that is not an
  array) are outside these records. The result records are the interfaces \<open>ImageData\<close>,
  \<open>Entity\<close> and \<open>AnalysisResult\<close> of the page that shows them.
\<close>

record ImageRef =
  image_index :: "int option"
  relevance :: "string option"
  people_shown :: "string list option"
  date :: "string option"
  location :: "string option"

record EntityIn =
  in_name :: "string option"
  in_type :: "string option"
  in_role :: "string option"
  in_description :: "string option"
  in_pronouns :: "string option"
  in_images :: "ImageRef list option"

record LLMResult =
  llm_summary :: "string option"
  llm_entities :: "EntityIn list option"

record ImageData =
  d_url :: string
  d_alt :: string
  d_caption :: string
  d_sourcePageUrl :: string
  d_attribution :: string
  d_relevance :: "string option"
  d_people_shown :: "string list option"
  d_date :: "string option"
  d_location :: "string option"

record Entity =
  e_name :: "string option"
  e_type :: "string option"
  e_role :: string
  e_description :: "string option"
  e_pronouns :: string
  e_images :: "ImageData list"

record AnalysisResult =
  r_episode_title :: string
  r_episode_url :: string
  r_summary :: string
  r_entities :: "Entity list"
  r_allImages :: "ImageData list"

datatype payload = Error string | Result AnalysisResult

type_synonym json_parser = "string \<Rightarrow> string + LLMResult"
  \<comment> \<open>\<open>JSON.parse\<close>, read at the shape above; \<open>Inl\<close> carries the \<open>SyntaxError\<close> as text\<close>

definition invalid_url :: string where
  \<comment> \<open>the \<open>TypeError\<close> of \<open>new URL\<close>, as \<open>${err}\<close> prints it\<close>
  "invalid_url = ''TypeError: Invalid URL''"

definition not_a_string :: string where
  \<comment> \<open>the \<open>TypeError\<close> of calling \<open>split\<close> on \<open>undefined\<close>\<close>
  "not_a_string = ''TypeError: Cannot read properties of undefined (reading '' @ [CHR 0x27]
     @ ''split'' @ [CHR 0x27] @ '')''"

definition jsonStr :: "string \<Rightarrow> string option" where
  \<comment> \<open>the text handed to \<open>JSON.parse\<close>, before \<open>trim\<close>; \<open>None\<close> where an index reads
      \<open>undefined\<close>\<close>
  "jsonStr text =
     (if str_includes text ''```json''
      then Option.bind (seg (split ''```json'' text) 1) (\<lambda>part. seg (split ''```'' part) 0)
      else if str_includes text ''```''
      then Option.bind (seg (split ''```'' text) 1) (\<lambda>part. seg (split ''```'' part) 0)
      else Some text)"

definition parseResponse :: "json_parser \<Rightarrow> string \<Rightarrow> string + LLMResult" where
  \<comment> \<open>the lines under \<open>// Parse JSON\<close> of \<open>callLLM\<close>, and the \<open>try\<close> block of the JSON
      endpoint: strip a fence, trim, parse\<close>
  "parseResponse json_parse text =
     (case jsonStr text of
        None \<Rightarrow> Inl not_a_string
      | Some str \<Rightarrow> json_parse (trim str))"

type_synonym sdk = "string \<Rightarrow> string + string"
  \<comment> \<open>\<open>client.messages.create\<close> for a prompt: \<open>Inl\<close> what it throws, \<open>Inr\<close> the text of
      the first content block (empty when that block is not text)\<close>

definition callLLM :: "sdk \<Rightarrow> json_parser \<Rightarrow> string \<Rightarrow> string + LLMResult" where
  "callLLM client json_parse prompt =
     (case client prompt of
        Inl err \<Rightarrow> Inl err
      | Inr text \<Rightarrow> parseResponse json_parse text)"

fun mapM :: "('a \<Rightarrow> string + 'b) \<Rightarrow> 'a list \<Rightarrow> string + 'b list" where
  \<comment> \<open>\<open>xs.map(f)\<close> where \<open>f\<close> may throw: the first exception ends the map\<close>
  "mapM f [] = Inr []"
| "mapM f (x # xs) =
     (case f x of
        Inl err \<Rightarrow> Inl err
      | Inr y \<Rightarrow> (case mapM f xs of Inl err \<Rightarrow> Inl err | Inr ys \<Rightarrow> Inr (y # ys)))"

definition at_index :: "ImageCandidate list \<Rightarrow> int option \<Rightarrow> ImageCandidate option" where
  \<comment> \<open>\<open>uniqueImages[imgRef.image_index]\<close>: \<open>undefined\<close> for an index that is absent or not
      a position of the array\<close>
  "at_index uniqueImages idx =
     (case idx of
        None \<Rightarrow> None
      | Some i \<Rightarrow> if 0 \<le> i \<and> nat i < length uniqueImages then Some (uniqueImages ! nat i) else None)"

definition attribution_of :: "url_parser \<Rightarrow> string \<Rightarrow> string + string" where
  \<comment> \<open>\<open>new URL(img.sourcePageUrl).hostname\<close>\<close>
  "attribution_of parse pageUrl =
     (case parse pageUrl None of None \<Rightarrow> Inl invalid_url | Some u \<Rightarrow> Inr (hostname u))"

definition resolve_ref_stream :: "url_parser \<Rightarrow> ImageCandidate list \<Rightarrow> ImageRef \<Rightarrow> string + ImageData option" where
  \<comment> \<open>the callback of \<open>(entity.images || []).map\<close> in \<open>route.ts\<close>; \<open>Inr None\<close> is its \<open>null\<close>\<close>
  "resolve_ref_stream parse uniqueImages imgRef =
     (case at_index uniqueImages (image_index imgRef) of
        None \<Rightarrow> Inr None
      | Some img \<Rightarrow>
         (case attribution_of parse (sourcePageUrl img) of
            Inl err \<Rightarrow> Inl err
          | Inr h \<Rightarrow>
              Inr (Some \<lparr> d_url = url img, d_alt = alt img, d_caption = caption img,
                          d_sourcePageUrl = sourcePageUrl img, d_attribution = h,
                          d_relevance = relevance imgRef,
                          d_people_shown = Some (case people_shown imgRef of
                                                   None \<Rightarrow> [] | Some ps \<Rightarrow> ps),
                          d_date = Some (orDefault (date imgRef) []),
                          d_location = Some (orDefault (location imgRef) []) \<rparr>)))"

definition resolve_ref_json :: "url_parser \<Rightarrow> ImageCandidate list \<Rightarrow> ImageRef \<Rightarrow> string + ImageData option" where
  \<comment> \<open>the same callback in the JSON endpoint\<close>
  "resolve_ref_json parse uniqueImages imgRef =
     (case at_index uniqueImages (image_index imgRef) of
        None \<Rightarrow> Inr None
      | Some img \<Rightarrow>
         (case attribution_of parse (sourcePageUrl img) of
            Inl err \<Rightarrow> Inl err
          | Inr h \<Rightarrow>
              Inr (Some \<lparr> d_url = url img, d_alt = alt img, d_caption = caption img,
                          d_sourcePageUrl = sourcePageUrl img, d_attribution = h,
                          d_relevance = relevance imgRef,
                          d_people_shown = None, d_date = None, d_location = None \<rparr>)))"

definition shape_entity :: "(ImageRef \<Rightarrow> string + ImageData option) \<Rightarrow> EntityIn \<Rightarrow> string + Entity" where
  \<comment> \<open>the callback of \<open>(llmResult.entities || []).map\<close>; \<open>filter(Boolean)\<close> drops the nulls\<close>
  "shape_entity resolve entity =
     (case mapM resolve (case in_images entity of None \<Rightarrow> [] | Some refs \<Rightarrow> refs) of
        Inl err \<Rightarrow> Inl err
      | Inr resolved \<Rightarrow>
          Inr \<lparr> e_name = in_name entity, e_type = in_type entity,
                e_role = orDefault (in_role entity) [],
                e_description = in_description entity,
                e_pronouns = orDefault (in_pronouns entity) [],
                e_images = List.map_filter (\<lambda>d. d) resolved \<rparr>)"

definition plain_image :: "url_parser \<Rightarrow> ImageCandidate \<Rightarrow> string + ImageData" where
  \<comment> \<open>the callback of the \<open>allImages\<close> map\<close>
  "plain_image parse img =
     (case attribution_of parse (sourcePageUrl img) of
        Inl err \<Rightarrow> Inl err
      | Inr h \<Rightarrow>
          Inr \<lparr> d_url = url img, d_alt = alt img, d_caption = caption img,
                d_sourcePageUrl = sourcePageUrl img, d_attribution = h,
                d_relevance = None, d_people_shown = None, d_date = None,
                d_location = None \<rparr>)"

definition build_result :: "(ImageRef \<Rightarrow> string + ImageData option) \<Rightarrow> url_parser \<Rightarrow> string \<Rightarrow> string \<Rightarrow> LLMResult \<Rightarrow> ImageCandidate list \<Rightarrow> string + AnalysisResult" where
  \<comment> \<open>\<open>const result = { ... }\<close>; \<open>listed\<close> is what the \<open>allImages\<close> field maps over\<close>
  "build_result resolve parse episodeTitle seedUrl llmResult listed =
     (case mapM (shape_entity resolve)
                (case llm_entities llmResult of None \<Rightarrow> [] | Some es \<Rightarrow> es) of
        Inl err \<Rightarrow> Inl err
      | Inr shaped \<Rightarrow>
         (case mapM (plain_image parse) listed of
            Inl err \<Rightarrow> Inl err
          | Inr flat \<Rightarrow>
              Inr \<lparr> r_episode_title = episodeTitle, r_episode_url = seedUrl,
                    r_summary = orDefault (llm_summary llmResult) [],
                    r_entities = shaped, r_allImages = flat \<rparr>))"

section \<open>Deduplication\<close>

fun dedup_loop :: "ImageCandidate list \<Rightarrow> string set \<Rightarrow> ImageCandidate list \<Rightarrow> ImageCandidate list" where
  \<comment> \<open>\<open>for (const img of allImages) { if (!seenUrls.has(img.url)) { ... } }\<close>\<close>
  "dedup_loop [] seenUrls uniqueImages = uniqueImages"
| "dedup_loop (img # rest) seenUrls uniqueImages =
     (if url img \<notin> seenUrls
      then dedup_loop rest (insert (url img) seenUrls) (uniqueImages @ [img])
      else dedup_loop rest seenUrls uniqueImages)"

definition deduplicate :: "ImageCandidate list \<Rightarrow> ImageCandidate list" where
  "deduplicate candidates = dedup_loop candidates {} []"

section \<open>The network and the two request handlers\<close>

text \<open>
  \<open>fetch\<close> either rejects (a network error, or the abort that the timeout sends) or resolves
  to a response. A network is a function from the number of requests made so far and the
  URL asked for, so that the same URL may be answered differently each time. Each handler
  returns, beside its answer, the list of the URLs it fetched, in order. Waiting
  (\<open>delay\<close>, the timeout's clock) has no other effect and is not modelled.
\<close>

record Response =
  status :: nat
  content_type :: "string option"
    \<comment> \<open>\<open>response.headers.get('content-type')\<close>\<close>
  body :: "string + string"
    \<comment> \<open>\<open>await response.text()\<close>: \<open>Inl\<close> when reading the body throws\<close>

datatype fetch_outcome = Rejects string | Resolves Response

type_synonym network = "nat \<Rightarrow> string \<Rightarrow> fetch_outcome"

definition ok :: "Response \<Rightarrow> bool" where
  \<comment> \<open>\<open>response.ok\<close>\<close>
  "ok response = (200 \<le> status response \<and> status response \<le> 299)"

datatype msg = STATUS string | RESULT payload

record crawl_state =
  cs_sent :: "msg list"
    \<comment> \<open>the lines sent so far (the JSON endpoint sends none)\<close>
  cs_fetched :: "string list"
  cs_sourcePages :: "SourcePage list"
  cs_allImages :: "ImageCandidate list"

record stream_run =
  sent :: "msg list"
  fetched :: "string list"

record json_run =
  answer :: payload
  http_status :: nat
  fetched_json :: "string list"

definition crawl_step_stream :: "cheerio \<Rightarrow> url_parser \<Rightarrow> network \<Rightarrow> nat \<Rightarrow> nat \<Rightarrow> string \<Rightarrow> crawl_state \<Rightarrow> (string \<times> crawl_state) + crawl_state" where
  \<comment> \<open>one round of the \<open>for\<close> loop of \<open>route.ts\<close>; \<open>Inl\<close> is an exception that leaves the
      loop (\<open>new URL(sourceUrl)\<close> stands outside the inner \<open>try\<close>)\<close>
  "crawl_step_stream load parse net n_links i sourceUrl st =
     (case parse sourceUrl None of
        None \<Rightarrow> Inl (invalid_url, st)
      | Some u \<Rightarrow>
         (let st1 = st\<lparr> cs_sent := cs_sent st @
                          [STATUS (''Crawling source '' @ show_nat (i + 1) @ ''/''
                                   @ show_nat n_links @ '': '' @ hostname u)],
                        cs_fetched := cs_fetched st @ [sourceUrl] \<rparr>
          in
          case net (length (cs_fetched st)) sourceUrl of
            Rejects err \<Rightarrow> Inr st1
          | Resolves response \<Rightarrow>
             (if \<not> ok response then Inr st1
              else if \<not> str_includes (orDefault (content_type response) []) ''text/html''
              then Inr st1
              else
                (case body response of
                   Inl err \<Rightarrow> Inr st1
                 | Inr html \<Rightarrow>
                    (let d = load html;
                         title = orDefault (orElse (Some (trim (h1_text d)))
                                                   (Some (trim (title_text d))))
                                           ''Untitled'';
                         text0 = trim (collapseWhiteSpace (main_text d))
                     in Inr (st1\<lparr> cs_sourcePages := cs_sourcePages st1 @
                                       [\<lparr> sp_url = sourceUrl, sp_title = slice0 100 title,
                                          sp_text = slice0 4000 text0 \<rparr>],
                                     cs_allImages := cs_allImages st1 @
                                       extractImagesFromPage load parse html sourceUrl title \<rparr>))))))"

fun crawl_stream :: "cheerio \<Rightarrow> url_parser \<Rightarrow> network \<Rightarrow> nat \<Rightarrow> nat \<Rightarrow> string list \<Rightarrow> crawl_state \<Rightarrow> (string \<times> crawl_state) + crawl_state" where
  \<comment> \<open>\<open>for (let i = 0; i < episodeData.sourceLinks.length; i++)\<close>, from round \<open>i\<close> on\<close>
  "crawl_stream load parse net n_links i [] st = Inr st"
| "crawl_stream load parse net n_links i (sourceUrl # rest) st =
     (case crawl_step_stream load parse net n_links i sourceUrl st of
        Inl thrown \<Rightarrow> Inl thrown
      | Inr st1 \<Rightarrow> crawl_stream load parse net n_links (i + 1) rest st1)"

definition finish_stream :: "url_parser \<Rightarrow> sdk \<Rightarrow> json_parser \<Rightarrow> string \<Rightarrow> EpisodeData \<Rightarrow> crawl_state \<Rightarrow> stream_run" where
  \<comment> \<open>\<open>route.ts\<close> from the line after the loop to the end\<close>
  "finish_stream parse client json_parse seedUrl episodeData st =
     (let m1 = cs_sent st @
                 [STATUS (''Crawled '' @ show_nat (length (cs_sourcePages st))
                          @ '' sources, found '' @ show_nat (length (cs_allImages st))
                          @ '' images'')];
          uniqueImages = deduplicate (cs_allImages st);
          m2 = m1 @ [STATUS (show_nat (length uniqueImages) @ '' unique images after dedup''),
                     STATUS ''Analyzing with Claude...''];
          prompt = buildPrompt_stream (ep_title episodeData) (ep_text episodeData)
                     (cs_sourcePages st) uniqueImages
      in
      case callLLM client json_parse prompt of
        Inl err \<Rightarrow> \<lparr> sent = m2 @ [RESULT (Error (''LLM error: '' @ err))],
                     fetched = cs_fetched st \<rparr>
      | Inr llmResult \<Rightarrow>
         (let m3 = m2 @ [STATUS (''Found ''
                          @ show_nat (case llm_entities llmResult of
                                        None \<Rightarrow> 0 | Some es \<Rightarrow> length es)
                          @ '' entities'')]
          in
          case build_result (resolve_ref_stream parse uniqueImages) parse
                 (ep_title episodeData) seedUrl llmResult uniqueImages of
            Inl err \<Rightarrow> \<lparr> sent = m3 @ [RESULT (Error (''Unexpected error: '' @ err))],
                         fetched = cs_fetched st \<rparr>
          | Inr result \<Rightarrow> \<lparr> sent = m3 @ [RESULT (Result result)],
                            fetched = cs_fetched st \<rparr>))"

definition POST_stream :: "cheerio \<Rightarrow> url_parser \<Rightarrow> network \<Rightarrow> sdk \<Rightarrow> json_parser \<Rightarrow> string option \<Rightarrow> string + string option \<Rightarrow> stream_run" where
  \<comment> \<open>\<open>POST\<close> of \<open>route.ts\<close>. \<open>api_key\<close> is \<open>process.env.ANTHROPIC_API_KEY\<close>; \<open>req\<close> is
      \<open>await request.json()\<close>: \<open>Inl\<close> when that throws, else the \<open>url\<close> field of the body,
      a string when it is there\<close>
  "POST_stream load parse net client json_parse api_key req =
     (case req of
        Inl err \<Rightarrow> \<lparr> sent = [RESULT (Error (''Unexpected error: '' @ err))], fetched = [] \<rparr>
      | Inr url_field \<Rightarrow>
         (if \<not> truthy url_field
          then \<lparr> sent = [RESULT (Error ''No URL provided'')], fetched = [] \<rparr>
          else if \<not> truthy api_key
          then \<lparr> sent = [RESULT (Error ''ANTHROPIC_API_KEY not configured'')], fetched = [] \<rparr>
          else
            (let seedUrl = the url_field;
                 m0 = [STATUS ''Fetching episode page...'']
             in
             case net 0 seedUrl of
               Rejects err \<Rightarrow>
                 \<lparr> sent = m0 @ [RESULT (Error (''Failed to fetch episode: '' @ err))],
                   fetched = [seedUrl] \<rparr>
             | Resolves episodeResponse \<Rightarrow>
                (if \<not> ok episodeResponse
                 then \<lparr> sent = m0 @ [RESULT (Error (''Failed to fetch episode: Error: HTTP ''
                                                      @ show_nat (status episodeResponse)))],
                        fetched = [seedUrl] \<rparr>
                 else
                   (case body episodeResponse of
                      Inl err \<Rightarrow>
                        \<lparr> sent = m0 @ [RESULT (Error (''Unexpected error: '' @ err))],
                          fetched = [seedUrl] \<rparr>
                    | Inr episodeHtml \<Rightarrow>
                       (let episodeData = extractEpisodeData load parse episodeHtml seedUrl;
                            m1 = m0 @ [STATUS (''Found episode: '' @ ep_title episodeData),
                                       STATUS (''Found ''
                                               @ show_nat (length (sourceLinks episodeData))
                                               @ '' source links'')];
                            episodeImages = extractImagesFromPage load parse episodeHtml seedUrl
                                              (ep_title episodeData);
                            st0 = \<lparr> cs_sent = m1, cs_fetched = [seedUrl],
                                    cs_sourcePages = [], cs_allImages = episodeImages \<rparr>
                        in
                        case crawl_stream load parse net (length (sourceLinks episodeData)) 0
                               (sourceLinks episodeData) st0 of
                          Inl (err, st) \<Rightarrow>
                            \<lparr> sent = cs_sent st @ [RESULT (Error (''Unexpected error: '' @ err))],
                              fetched = cs_fetched st \<rparr>
                        | Inr st \<Rightarrow>
                            finish_stream parse client json_parse seedUrl episodeData st))))))"

definition crawl_step_json :: "url_parser \<Rightarrow> network \<Rightarrow> string \<Rightarrow> crawl_state \<Rightarrow> crawl_state" where
  \<comment> \<open>one round of the \<open>for\<close> loop of the JSON endpoint\<close>
  "crawl_step_json parse net sourceUrl st =
     (let st1 = st\<lparr> cs_fetched := cs_fetched st @ [sourceUrl] \<rparr>
      in
      case net (length (cs_fetched st)) sourceUrl of
        Rejects err \<Rightarrow> st1
      | Resolves response \<Rightarrow>
         (if \<not> ok response then st1
          else if \<not> str_includes (orDefault (content_type response) []) ''text/html''
          then st1
          else
            (case body response of
               Inl err \<Rightarrow> st1
             | Inr html \<Rightarrow>
                 st1\<lparr> cs_sourcePages := cs_sourcePages st1 @
                         [\<lparr> sp_url = sourceUrl, sp_title = extractTitle html,
                            sp_text = slice0 4000 (extractTextContent html) \<rparr>],
                       cs_allImages := cs_allImages st1 @
                         extractImages parse html sourceUrl (extractTitle html) \<rparr>)))"

fun crawl_json :: "url_parser \<Rightarrow> network \<Rightarrow> string list \<Rightarrow> crawl_state \<Rightarrow> crawl_state" where
  \<comment> \<open>\<open>for (const sourceUrl of sourceLinks.slice(0, CONFIG.maxSources))\<close>\<close>
  "crawl_json parse net [] st = st"
| "crawl_json parse net (sourceUrl # rest) st =
     crawl_json parse net rest (crawl_step_json parse net sourceUrl st)"

datatype api_outcome = ApiThrows string | ApiNotOk string | ApiOk string
  \<comment> \<open>the request to the model's HTTP API: it throws, or answers with a failure status and
      an error text, or answers with \<open>anthropicData.content?.[0]?.text || ''\<close>\<close>

type_synonym api = "string \<Rightarrow> api_outcome"

definition finish_json :: "url_parser \<Rightarrow> api \<Rightarrow> json_parser \<Rightarrow> string \<Rightarrow> string \<Rightarrow> string \<Rightarrow> crawl_state \<Rightarrow> json_run" where
  \<comment> \<open>the JSON endpoint from the line after the loop to the end\<close>
  "finish_json parse call json_parse seedUrl episodeTitle episodeText st =
     (let uniqueImages = deduplicate (cs_allImages st);
          prompt = buildPrompt_json episodeTitle episodeText (cs_sourcePages st) uniqueImages
      in
      case call prompt of
        ApiThrows err \<Rightarrow>
          \<lparr> answer = Error (''Server error: '' @ err), http_status = 500,
            fetched_json = cs_fetched st \<rparr>
      | ApiNotOk errorText \<Rightarrow>
          \<lparr> answer = Error (''Claude API error: '' @ errorText), http_status = 500,
            fetched_json = cs_fetched st \<rparr>
      | ApiOk responseText \<Rightarrow>
         (case parseResponse json_parse responseText of
            Inl err \<Rightarrow>
              \<lparr> answer = Error ''Failed to parse Claude response'', http_status = 500,
                fetched_json = cs_fetched st \<rparr>
          | Inr llmResult \<Rightarrow>
             (case build_result (resolve_ref_json parse uniqueImages) parse episodeTitle seedUrl
                     llmResult (take 50 uniqueImages) of
                Inl err \<Rightarrow>
                  \<lparr> answer = Error (''Server error: '' @ err), http_status = 500,
                    fetched_json = cs_fetched st \<rparr>
              | Inr result \<Rightarrow>
                  \<lparr> answer = Result result, http_status = 200,
                    fetched_json = cs_fetched st \<rparr>)))"

definition POST_json :: "url_parser \<Rightarrow> network \<Rightarrow> api \<Rightarrow> json_parser \<Rightarrow> string option \<Rightarrow> string + string option \<Rightarrow> json_run" where
  \<comment> \<open>\<open>POST\<close> of the JSON endpoint, with the parameters of \<open>POST_stream\<close>\<close>
  "POST_json parse net call json_parse api_key req =
     (case req of
        Inl err \<Rightarrow>
          \<lparr> answer = Error (''Server error: '' @ err), http_status = 500, fetched_json = [] \<rparr>
      | Inr url_field \<Rightarrow>
         (if \<not> truthy url_field
          then \<lparr> answer = Error ''No URL provided'', http_status = 400, fetched_json = [] \<rparr>
          else if \<not> truthy api_key
          then \<lparr> answer = Error ''ANTHROPIC_API_KEY not configured'', http_status = 500,
                 fetched_json = [] \<rparr>
          else
            (let seedUrl = the url_field
             in
             case net 0 seedUrl of
               Rejects err \<Rightarrow>
                 \<lparr> answer = Error (''Server error: '' @ err), http_status = 500,
                   fetched_json = [seedUrl] \<rparr>
             | Resolves episodeResponse \<Rightarrow>
                (if \<not> ok episodeResponse
                 then \<lparr> answer = Error (''Failed to fetch episode: HTTP ''
                                         @ show_nat (status episodeResponse)),
                        http_status = 400, fetched_json = [seedUrl] \<rparr>
                 else
                   (case body episodeResponse of
                      Inl err \<Rightarrow>
                        \<lparr> answer = Error (''Server error: '' @ err), http_status = 500,
                          fetched_json = [seedUrl] \<rparr>
                    | Inr episodeHtml \<Rightarrow>
                       (let episodeTitle = extractTitle episodeHtml;
                            episodeText = extractTextContent episodeHtml;
                            links = extractLinks parse episodeHtml seedUrl;
                            st0 = \<lparr> cs_sent = [], cs_fetched = [seedUrl], cs_sourcePages = [],
                                    cs_allImages = extractImages parse episodeHtml seedUrl
                                                     episodeTitle \<rparr>;
                            st = crawl_json parse net (take (maxSources CONFIG_json) links) st0
                        in finish_json parse call json_parse seedUrl episodeTitle episodeText
                             st))))))"

section \<open>Fixtures\<close>

text \<open>
  Concrete inputs on which the theorems below are run. The platform's URL parser and the
  document parser are given by tables: what \<open>new URL\<close> and \<open>cheerio.load\<close> answer on the
  inputs the runs ask for. Every URL in a fixture page is absolute, so the base URL plays
  no part in parsing it.
\<close>

definition cand :: "string \<Rightarrow> string \<Rightarrow> ImageCandidate" where
  \<comment> \<open>a candidate with a URL and an alt text, found on \<open>http://example.com/episode\<close>\<close>
  "cand u a = \<lparr> url = u, alt = a, caption = [], img_context = [],
                sourcePageUrl = ''http://example.com/episode'', sourcePageTitle = ''Episode'' \<rparr>"

definition mk_url :: "string \<Rightarrow> string \<Rightarrow> string \<Rightarrow> string option \<Rightarrow> URL" where
  "mk_url s h p q = \<lparr> scheme = s, username = [], password = [], host = h, port = None,
                      path = p, query = q, fragment = None \<rparr>"

definition URL_table :: url_parser where
  \<open>URL_table input base =
     map_of
       [(''http://example.com/episode'', mk_url ''http'' ''example.com'' ''/episode'' None),
        (''http://example.com/sources'', mk_url ''http'' ''example.com'' ''/sources'' None),
        (''http://example.com/big.jpg'', mk_url ''http'' ''example.com'' ''/big.jpg'' None),
        (''http://example.com/small.jpg'', mk_url ''http'' ''example.com'' ''/small.jpg'' None),
        (''http://example.com/hidden.jpg'', mk_url ''http'' ''example.com'' ''/hidden.jpg'' None),
        (''http://example.com/download?file=photo.png'',
           mk_url ''http'' ''example.com'' ''/download'' (Some ''file=photo.png'')),
        (''https://casefilepodcast.com/case-1'',
           mk_url ''https'' ''casefilepodcast.com'' ''/case-1'' None),
        (''http://news.example.org/story'', mk_url ''http'' ''news.example.org'' ''/story'' None),
        (''http://news.example.org/photo.jpg'',
           mk_url ''http'' ''news.example.org'' ''/photo.jpg'' None),
        (''http://archive.example.net/report'',
           mk_url ''http'' ''archive.example.net'' ''/report'' None)]
       input\<close>

definition plain_img :: "(string \<times> string) list \<Rightarrow> img_el" where
  \<comment> \<open>an \<open>img\<close> element with the given attributes, directly under \<open>body\<close>\<close>
  "plain_img attrs = \<lparr> in_removed = False, attr = map_of attrs, figcaption_text = None,
                        parent_caption_text = [], container_text = None \<rparr>"

definition plain_doc :: "string \<Rightarrow> string \<Rightarrow> img_el list \<Rightarrow> document" where
  \<comment> \<open>a page with a title, body text and images, and no links\<close>
  "plain_doc t txt els = \<lparr> h1_text = [], title_text = t, first_of = (\<lambda>sel. None),
       body_region = \<lparr> region_text = txt, region_hrefs = [] \<rparr>,
       anchors = [], main_text = txt, img_els = els,
       og_image = None, og_title = None, og_description = None \<rparr>"

definition html_sizes :: string where
  \<comment> \<open>one 150 by 150 image and one 50 by 50 image\<close>
  \<open>html_sizes = ''<html><head><title>Gallery</title></head><body>Photos''
     @ ''<img src="http://example.com/big.jpg" width="150" height="150">''
     @ ''<img src="http://example.com/small.jpg" width="50" height="50">''
     @ ''</body></html>''\<close>

definition doc_sizes :: document where
  "doc_sizes = plain_doc ''Gallery'' ''Photos''
     [plain_img [(''src'', ''http://example.com/big.jpg''), (''width'', ''150''), (''height'', ''150'')],
      plain_img [(''src'', ''http://example.com/small.jpg''), (''width'', ''50''), (''height'', ''50'')]]"

definition html_zero :: string where
  \<comment> \<open>an image whose stated width and height are 0\<close>
  \<open>html_zero = ''<html><head><title>Hidden</title></head><body>''
     @ ''<img src="http://example.com/hidden.jpg" width="0" height="0">''
     @ ''</body></html>''\<close>

definition doc_zero :: document where
  "doc_zero = plain_doc ''Hidden'' ''''
     [plain_img [(''src'', ''http://example.com/hidden.jpg''), (''width'', ''0''), (''height'', ''0'')]]"

definition html_query :: string where
  \<comment> \<open>an image served by a script: the extension is in the query string only\<close>
  \<open>html_query = ''<html><head><title>Files</title></head><body>''
     @ ''<img src="http://example.com/download?file=photo.png">''
     @ ''</body></html>''\<close>

definition doc_query :: document where
  "doc_query = plain_doc ''Files'' ''''
     [plain_img [(''src'', ''http://example.com/download?file=photo.png'')]]"

definition html_links :: string where
  \<comment> \<open>a seed page on \<open>example.com\<close> with a link to its own site, one to the podcast's
      site, and one outward\<close>
  \<open>html_links = ''<html><head><title>Episode</title></head><body><article>''
     @ ''<p>Sources: <a href="http://example.com/sources">more</a> ''
     @ ''<a href="https://casefilepodcast.com/case-1">case</a> ''
     @ ''<a href="http://news.example.org/story">story</a></p>''
     @ ''</article></body></html>''\<close>

definition links_region :: region where
  \<comment> \<open>the \<open>article\<close> of \<open>html_links\<close>, which is all of its \<open>body\<close>\<close>
  "links_region = \<lparr> region_text = ''Sources: more case story'',
       region_hrefs = [''http://example.com/sources'', ''https://casefilepodcast.com/case-1'',
                       ''http://news.example.org/story''] \<rparr>"

definition doc_links :: document where
  "doc_links = \<lparr> h1_text = [], title_text = ''Episode'',
       first_of = map_of [(''article'', links_region)], body_region = links_region,
       anchors = [(''Sources: more case story'', ''http://example.com/sources''),
                  (''Sources: more case story'', ''https://casefilepodcast.com/case-1''),
                  (''Sources: more case story'', ''http://news.example.org/story'')],
       main_text = ''Sources: more case story'', img_els = [],
       og_image = None, og_title = None, og_description = None \<rparr>"

definition html_story :: string where
  \<comment> \<open>a source page with one photo\<close>
  \<open>html_story = ''<html><head><title>Story</title></head><body><h1>Story</h1>''
     @ ''<img src="http://news.example.org/photo.jpg" alt="Scene">''
     @ ''</body></html>''\<close>

definition doc_story :: document where
  "doc_story = (plain_doc ''Story'' ''Story''
     [plain_img [(''src'', ''http://news.example.org/photo.jpg''), (''alt'', ''Scene'')]])
     \<lparr> h1_text := ''Story'' \<rparr>"

definition note_body :: string where
  \<comment> \<open>a JSON document that quotes an image tag\<close>
  \<open>note_body = ''{"note":"<img src='' @ [CHR 0x27] @ ''http://news.example.org/photo.jpg''
     @ [CHR 0x27] @ ''>"}''\<close>

definition doc_note :: document where
  \<comment> \<open>\<open>note_body\<close> read as HTML: a body of text around one image element\<close>
  \<open>doc_note = plain_doc '''' ''{"note":""}''
     [plain_img [(''src'', ''http://news.example.org/photo.jpg'')]]\<close>

definition html_height_only :: string where
  \<comment> \<open>an image that states a height of 50 and no width\<close>
  \<open>html_height_only = ''<img src="http://example.com/small.jpg" height="50">''\<close>

definition html_data_width :: string where
  \<comment> \<open>a 50 by 50 image whose tag carries a \<open>data-width\<close> attribute first\<close>
  \<open>html_data_width =
     ''<img data-width="640" src="http://example.com/small.jpg" width="50" height="50">''\<close>

definition load_table :: cheerio where
  "load_table html =
     (case map_of [(html_sizes, doc_sizes), (html_zero, doc_zero), (html_query, doc_query),
                   (html_links, doc_links), (html_story, doc_story),
                   (note_body, doc_note)] html of
        Some d \<Rightarrow> d
      | None \<Rightarrow> plain_doc [] [] [])"

section \<open>What the filters let through\<close>

definition accepted :: "url_parser \<Rightarrow> string \<Rightarrow> string \<Rightarrow> bool" where
  \<comment> \<open>an image URL as \<open>normalizeUrl\<close> and \<open>isImageUrl\<close> let it through: the normal form of
      some source attribute, absolute, with an image extension somewhere in its text\<close>
  "accepted parse pageUrl u =
     ((\<exists>src. normalizeUrl parse src pageUrl = Some u)
      \<and> (prefix ''http://'' u \<or> prefix ''https://'' u)
      \<and> (\<exists>ext \<in> set imageExtensions. str_includes (toLowerCase u) ext))"

definition outward :: "url_parser \<Rightarrow> string \<Rightarrow> string \<Rightarrow> bool" where
  \<comment> \<open>a source link as the link filter lets it through\<close>
  "outward parse seedUrl l =
     (\<not> str_includes l ''casefilepodcast.com''
      \<and> (\<exists>href. normalizeUrl parse href seedUrl = Some l))"

section \<open>Fixtures for the model's answer\<close>

definition reply_text :: string where
  \<comment> \<open>an answer with one entity that has no role and no pronouns, one image reference in
      range and one out of range\<close>
  \<open>reply_text = ''{"summary":"A case.","entities":[{"name":"Jane Doe","type":"Person",''
     @ ''"description":"The victim.","images":[{"image_index":0,"relevance":"portrait"},''
     @ ''{"image_index":7,"relevance":"unclear"}]}]}''\<close>

definition ref_in_range :: ImageRef where
  "ref_in_range = \<lparr> image_index = Some 0, relevance = Some ''portrait'',
                     people_shown = None, date = None, location = None \<rparr>"

definition ref_out_of_range :: ImageRef where
  "ref_out_of_range = \<lparr> image_index = Some 7, relevance = Some ''unclear'',
                         people_shown = None, date = None, location = None \<rparr>"

definition jane :: EntityIn where
  "jane = \<lparr> in_name = Some ''Jane Doe'', in_type = Some ''Person'', in_role = None,
             in_description = Some ''The victim.'', in_pronouns = None,
             in_images = Some [ref_in_range, ref_out_of_range] \<rparr>"

definition reply_value :: LLMResult where
  "reply_value = \<lparr> llm_summary = Some ''A case.'', llm_entities = Some [jane] \<rparr>"

definition backticks_text :: string where
  \<comment> \<open>valid JSON whose summary is three backticks\<close>
  \<open>backticks_text = ''{"summary":"```"}''\<close>

definition backticks_value :: LLMResult where
  "backticks_value = \<lparr> llm_summary = Some ''```'', llm_entities = None \<rparr>"

definition json_table :: json_parser where
  \<comment> \<open>\<open>JSON.parse\<close> on the texts the runs hand to it: the two texts above parse; the
      texts cut off inside a string are syntax errors\<close>
  "json_table s =
     (case map_of [(reply_text, reply_value), (backticks_text, backticks_value)] s of
        Some v \<Rightarrow> Inr v
      | None \<Rightarrow> Inl ''SyntaxError: Unexpected end of JSON input'')"

section \<open>Fixtures for the network\<close>

definition page :: "string \<Rightarrow> Response" where
  \<comment> \<open>a successful HTML response\<close>
  "page html = \<lparr> status = 200, content_type = Some ''text/html; charset=utf-8'',
                 body = Inr html \<rparr>"

definition net_table :: network where
  \<comment> \<open>the seed page answers with \<open>html_links\<close>; of its links, the first is not found
      and the second is a page with one photo; a PDF report; every other fetch fails\<close>
  "net_table n u =
     (case map_of
        [(''http://example.com/episode'', Resolves (page html_links)),
         (''http://example.com/sources'',
            Resolves \<lparr> status = 404, content_type = Some ''text/html'', body = Inr ''Not found'' \<rparr>),
         (''http://news.example.org/story'', Resolves (page html_story)),
         (''http://archive.example.net/report'',
            Resolves \<lparr> status = 200, content_type = Some ''application/pdf'',
                       body = Inr ''%PDF-1.4'' \<rparr>)] u of
        Some outcome \<Rightarrow> outcome
      | None \<Rightarrow> Rejects ''TypeError: fetch failed'')"

definition net_note :: network where
  \<comment> \<open>every fetch answers with the JSON document \<open>note_body\<close>, under a JSON content type
      that has \<open>text/html\<close> in a parameter\<close>
  \<open>net_note n u = Resolves \<lparr> status = 200,
                              content_type = Some ''application/json; note="text/html"'',
                              body = Inr note_body \<rparr>\<close>

definition net_404 :: network where
  \<comment> \<open>every page answers 404\<close>
  "net_404 n u = Resolves \<lparr> status = 404, content_type = Some ''text/html'',
                            body = Inr ''Not found'' \<rparr>"

definition sdk_reply :: sdk where
  \<comment> \<open>the model answers every prompt with \<open>reply_text\<close> in a fence\<close>
  "sdk_reply prompt = Inr (''```json\<newline>'' @ reply_text @ ''\<newline>```'')"

definition api_reply :: api where
  "api_reply prompt = ApiOk (''```json\<newline>'' @ reply_text @ ''\<newline>```'')"

definition crawl_start :: crawl_state where
  \<comment> \<open>the accumulators after the seed page: one fetch, one candidate\<close>
  "crawl_start = \<lparr> cs_sent = [], cs_fetched = [''http://example.com/episode''],
                   cs_sourcePages = [],
                   cs_allImages = [cand ''http://example.com/big.jpg'' ''Jane''] \<rparr>"

section \<open>Fixtures for a page with thirteen links\<close>

definition many_links :: "string list" where
  "many_links = [''http://s.example.org/1'', ''http://s.example.org/2'', ''http://s.example.org/3'', ''http://s.example.org/4'', ''http://s.example.org/5'', ''http://s.example.org/6'', ''http://s.example.org/7'', ''http://s.example.org/8'', ''http://s.example.org/9'', ''http://s.example.org/10'', ''http://s.example.org/11'', ''http://s.example.org/12'', ''http://s.example.org/13'']"

definition html_many :: string where
  \<open>html_many = ''<a href="http://s.example.org/1">1</a>''
     @ ''<a href="http://s.example.org/2">2</a>''
     @ ''<a href="http://s.example.org/3">3</a>''
     @ ''<a href="http://s.example.org/4">4</a>''
     @ ''<a href="http://s.example.org/5">5</a>''
     @ ''<a href="http://s.example.org/6">6</a>''
     @ ''<a href="http://s.example.org/7">7</a>''
     @ ''<a href="http://s.example.org/8">8</a>''
     @ ''<a href="http://s.example.org/9">9</a>''
     @ ''<a href="http://s.example.org/10">10</a>''
     @ ''<a href="http://s.example.org/11">11</a>''
     @ ''<a href="http://s.example.org/12">12</a>''
     @ ''<a href="http://s.example.org/13">13</a>''\<close>

definition doc_many :: document where
  "doc_many = \<lparr> h1_text = [], title_text = [], first_of = (\<lambda>sel. None),
       body_region = \<lparr> region_text = ''12345678910111213'', region_hrefs = many_links \<rparr>,
       anchors = map (\<lambda>l. (''12345678910111213'', l)) many_links,
       main_text = ''12345678910111213'', img_els = [],
       og_image = None, og_title = None, og_description = None \<rparr>"

definition load_many :: cheerio where
  "load_many html = doc_many"

definition URL_many :: url_parser where
  \<open>URL_many input base =
     map_of
       [(''http://example.com/episode'', mk_url ''http'' ''example.com'' ''/episode'' None),
        (''http://s.example.org/1'', mk_url ''http'' ''s.example.org'' ''/1'' None),
        (''http://s.example.org/2'', mk_url ''http'' ''s.example.org'' ''/2'' None),
        (''http://s.example.org/3'', mk_url ''http'' ''s.example.org'' ''/3'' None),
        (''http://s.example.org/4'', mk_url ''http'' ''s.example.org'' ''/4'' None),
        (''http://s.example.org/5'', mk_url ''http'' ''s.example.org'' ''/5'' None),
        (''http://s.example.org/6'', mk_url ''http'' ''s.example.org'' ''/6'' None),
        (''http://s.example.org/7'', mk_url ''http'' ''s.example.org'' ''/7'' None),
        (''http://s.example.org/8'', mk_url ''http'' ''s.example.org'' ''/8'' None),
        (''http://s.example.org/9'', mk_url ''http'' ''s.example.org'' ''/9'' None),
        (''http://s.example.org/10'', mk_url ''http'' ''s.example.org'' ''/10'' None),
        (''http://s.example.org/11'', mk_url ''http'' ''s.example.org'' ''/11'' None),
        (''http://s.example.org/12'', mk_url ''http'' ''s.example.org'' ''/12'' None),
        (''http://s.example.org/13'', mk_url ''http'' ''s.example.org'' ''/13'' None)]
       input\<close>

definition net_many :: network where
  \<comment> \<open>the first fetch answers with \<open>html_many\<close>, every later fetch fails\<close>
  "net_many n u = (if n = 0 then Resolves (page html_many) else Rejects ''TypeError: fetch failed'')"

definition sdk_down :: sdk where
  "sdk_down prompt = Inl ''Error: Connection error.''"

definition api_down :: api where
  "api_down prompt = ApiNotOk ''overloaded''"

section \<open>Image candidates\<close>


lemma normalizeUrl_absolute:
  assumes "normalizeUrl parse src base = Some u"
  shows "prefix ''http://'' u \<or> prefix ''https://'' u"
proof -
  from assms obtain a where a: "parse src (Some base) = Some a"
    and p: "protocol a = ''http:'' \<or> protocol a = ''https:''"
    and u: "u = href (a\<lparr>fragment := None\<rparr>)"
    by (auto simp: normalizeUrl_def split: option.splits if_splits)
  from p have "scheme a = ''http'' \<or> scheme a = ''https''"
    by (auto simp: protocol_def)
  then show ?thesis
    unfolding u href_def by (auto simp: prefix_def)
qed

lemma acceptedI:
  "normalizeUrl parse src pageUrl = Some u \<Longrightarrow> isImageUrl u \<Longrightarrow> accepted parse pageUrl u"
  unfolding accepted_def
  by (auto dest: normalizeUrl_absolute simp: isImageUrl_def list_ex_iff)

lemma image_of_el_accepted:
  "image_of_el parse pageUrl pageTitle el = Some c \<Longrightarrow> accepted parse pageUrl (url c)"
  unfolding image_of_el_def Let_def
  by (auto split: if_splits option.splits intro: acceptedI)

lemma images_each_all:
  assumes "\<And>el c. image_of_el parse pu pt el = Some c \<Longrightarrow> Q c"
  shows "(\<forall>c \<in> set acc. Q c) \<Longrightarrow> \<forall>c \<in> set (images_each parse pu pt els acc). Q c"
proof (induction els arbitrary: acc)
  case Nil
  then show ?case by simp
next
  case (Cons el els)
  show ?case
  proof (cases "image_of_el parse pu pt el")
    case None
    with Cons show ?thesis by simp
  next
    case (Some c)
    with assms have "Q c" by blast
    with Cons.prems have "\<forall>x \<in> set (acc @ [c]). Q x" by simp
    then have "\<forall>x \<in> set (images_each parse pu pt els (acc @ [c])). Q x"
      by (rule Cons.IH)
    with Some Cons.prems show ?thesis by simp
  qed
qed

lemma extractImagesFromPage_accepted:
  "c \<in> set (extractImagesFromPage load parse html pageUrl pageTitle) \<Longrightarrow>
   accepted parse pageUrl (url c)"
proof -
  assume c: "c \<in> set (extractImagesFromPage load parse html pageUrl pageTitle)"
  have each: "\<forall>c \<in> set (images_each parse pageUrl pageTitle
                           (filter (\<lambda>el. \<not> in_removed el) (img_els (load html))) []).
                accepted parse pageUrl (url c)"
    by (rule images_each_all) (auto dest: image_of_el_accepted)
  from c each show ?thesis
    unfolding extractImagesFromPage_def Let_def
    by (auto split: if_splits option.splits intro: acceptedI)
qed

lemma image_of_match_accepted:
  "image_of_match parse pageUrl pageTitle m = Some c \<Longrightarrow> accepted parse pageUrl (url c)"
  unfolding image_of_match_def Let_def
  by (auto split: if_splits option.splits intro: acceptedI)

lemma images_while_all:
  assumes "\<And>m c. image_of_match parse pu pt m = Some c \<Longrightarrow> Q c"
  shows "(\<forall>c \<in> set acc. Q c) \<Longrightarrow> \<forall>c \<in> set (images_while parse pu pt ms acc). Q c"
proof (induction ms arbitrary: acc)
  case Nil
  then show ?case by simp
next
  case (Cons m ms)
  show ?case
  proof (cases "image_of_match parse pu pt m")
    case None
    with Cons show ?thesis by simp
  next
    case (Some c)
    with assms have "Q c" by blast
    with Cons.prems have "\<forall>x \<in> set (acc @ [c]). Q x" by simp
    then have "\<forall>x \<in> set (images_while parse pu pt ms (acc @ [c])). Q x"
      by (rule Cons.IH)
    with Some Cons.prems show ?thesis by simp
  qed
qed

lemma extractImages_accepted:
  "c \<in> set (extractImages parse html pageUrl pageTitle) \<Longrightarrow> accepted parse pageUrl (url c)"
proof -
  assume c: "c \<in> set (extractImages parse html pageUrl pageTitle)"
  have each: "\<forall>c \<in> set (images_while parse pageUrl pageTitle (scan img_re 0 html) []).
                accepted parse pageUrl (url c)"
    by (rule images_while_all) (auto dest: image_of_match_accepted)
  from c each show ?thesis
    unfolding extractImages_def Let_def
    by (auto split: if_splits option.splits intro: acceptedI)
qed

text \<open>
  Claim C1, as the code has it. For every input HTML document and base URL, on either
  endpoint, every image candidate URL that page extraction produces is an absolute http or
  https URL (a value that URL normalization returns against the page URL, and it starts with
  \<open>http://\<close> or \<open>https://\<close>) whose lower-cased text contains one of \<open>.jpg\<close>,
  \<open>.jpeg\<close>, \<open>.png\<close>, \<open>.gif\<close>, \<open>.webp\<close> somewhere: the extension need not end the
  path, and a query string is not set aside.
\<close>

theorem image_urls_normalized_with_extension:
  "(\<forall>c \<in> set (extractImagesFromPage load parse html pageUrl pageTitle).
      (\<exists>src. normalizeUrl parse src pageUrl = Some (url c))
      \<and> (prefix ''http://'' (url c) \<or> prefix ''https://'' (url c))
      \<and> (\<exists>ext \<in> set imageExtensions. str_includes (toLowerCase (url c)) ext))
   \<and> (\<forall>c \<in> set (extractImages parse html pageUrl pageTitle).
      (\<exists>src. normalizeUrl parse src pageUrl = Some (url c))
      \<and> (prefix ''http://'' (url c) \<or> prefix ''https://'' (url c))
      \<and> (\<exists>ext \<in> set imageExtensions. str_includes (toLowerCase (url c)) ext))"
  using extractImagesFromPage_accepted [of _ load parse html pageUrl pageTitle]
        extractImages_accepted [of _ parse html pageUrl pageTitle]
  unfolding accepted_def by blast

lemma run_sizes_json:
  "map url (extractImages URL_table html_sizes ''http://example.com/episode'' ''Gallery'')
     = [''http://example.com/big.jpg'']"
  by code_simp

lemma run_sizes_stream:
  "map url (extractImagesFromPage load_table URL_table html_sizes ''http://example.com/episode''
              ''Gallery'')
     = [''http://example.com/big.jpg'']"
  by code_simp

theorem image_urls_normalized_with_extension_witness:
  "map url (extractImagesFromPage load_table URL_table html_sizes ''http://example.com/episode''
              ''Gallery'') = [''http://example.com/big.jpg'']
   \<and> map url (extractImages URL_table html_sizes ''http://example.com/episode'' ''Gallery'')
       = [''http://example.com/big.jpg'']
   \<and> (\<exists>src. normalizeUrl URL_table src ''http://example.com/episode''
                = Some ''http://example.com/big.jpg'')
   \<and> (\<exists>ext \<in> set imageExtensions. str_includes (toLowerCase ''http://example.com/big.jpg'') ext)"
proof -
  obtain c where c: "extractImages URL_table html_sizes ''http://example.com/episode'' ''Gallery''
                       = [c]" and u: "url c = ''http://example.com/big.jpg''"
    using run_sizes_json by auto
  have "c \<in> set (extractImages URL_table html_sizes ''http://example.com/episode'' ''Gallery'')"
    by (simp add: c)
  with image_urls_normalized_with_extension
         [of load_table URL_table html_sizes "''http://example.com/episode''" "''Gallery''"]
  have "(\<exists>src. normalizeUrl URL_table src ''http://example.com/episode'' = Some (url c))
      \<and> (\<exists>ext \<in> set imageExtensions. str_includes (toLowerCase (url c)) ext)"
    by blast
  with u run_sizes_json run_sizes_stream show ?thesis by simp
qed

text \<open>
  The claim as the specification words it fails: an image whose URL has the extension in
  its query string only is extracted on both endpoints, though its path, \<open>/download\<close>,
  ends with none of the extensions.
\<close>

theorem image_url_path_counterexample:
  "map url (extractImagesFromPage load_table URL_table html_query ''http://example.com/episode''
              ''Files'') = [''http://example.com/download?file=photo.png'']
   \<and> map url (extractImages URL_table html_query ''http://example.com/episode'' ''Files'')
       = [''http://example.com/download?file=photo.png'']
   \<and> map_option pathname (URL_table ''http://example.com/download?file=photo.png'' None)
       = Some ''/download''
   \<and> \<not> (\<exists>ext \<in> set imageExtensions. suffix ext ''/download'')"
  by code_simp

section \<open>Source links\<close>


lemma content_links_outward:
  "(\<forall>l \<in> set ls. outward parse seedUrl l) \<Longrightarrow>
   \<forall>l \<in> set (content_links parse seedUrl hrefs ls). outward parse seedUrl l"
proof (induction hrefs arbitrary: ls)
  case Nil
  then show ?case by (simp add: content_links_def)
next
  case (Cons h hs)
  let ?ls' = "(if h = [] then ls
              else case normalizeUrl parse h seedUrl of
                     None \<Rightarrow> ls
                   | Some normalized \<Rightarrow>
                       if \<not> str_includes normalized ''casefilepodcast.com''
                       then set_add ls normalized else ls)"
  have "\<forall>l \<in> set ?ls'. outward parse seedUrl l"
    using Cons.prems by (auto simp: set_add_def outward_def split: option.splits)
  then have "\<forall>l \<in> set (content_links parse seedUrl hs ?ls'). outward parse seedUrl l"
    by (rule Cons.IH)
  then show ?case by (simp add: content_links_def)
qed

lemma section_links_outward:
  "(\<forall>l \<in> set ls. outward parse seedUrl l) \<Longrightarrow>
   \<forall>l \<in> set (section_links parse seedUrl as ls). outward parse seedUrl l"
proof (induction as arbitrary: ls)
  case Nil
  then show ?case by (simp add: section_links_def)
next
  case (Cons a as)
  obtain parentText0 h where a: "a = (parentText0, h)" by (cases a)
  let ?ls' = "(let parentText = toLowerCase parentText0 in
              if h = [] then ls
              else case normalizeUrl parse h seedUrl of
                     None \<Rightarrow> ls
                   | Some normalized \<Rightarrow>
                       if str_includes parentText ''source'' \<or> str_includes parentText ''reference''
                       then (if \<not> str_includes normalized ''casefilepodcast.com''
                             then set_add ls normalized else ls)
                       else ls)"
  have "\<forall>l \<in> set ?ls'. outward parse seedUrl l"
    using Cons.prems by (auto simp: set_add_def outward_def Let_def split: option.splits)
  then have "\<forall>l \<in> set (section_links parse seedUrl as ?ls'). outward parse seedUrl l"
    by (rule Cons.IH)
  then show ?case by (simp add: section_links_def a)
qed

lemma extractEpisodeData_outward:
  "l \<in> set (sourceLinks (extractEpisodeData load parse html seedUrl)) \<Longrightarrow> outward parse seedUrl l"
proof -
  assume l: "l \<in> set (sourceLinks (extractEpisodeData load parse html seedUrl))"
  have "\<forall>l \<in> set (content_links parse seedUrl hrefs []). outward parse seedUrl l" for hrefs
    by (rule content_links_outward) simp
  then have "\<forall>l \<in> set (section_links parse seedUrl as (content_links parse seedUrl hrefs [])).
          outward parse seedUrl l" for hrefs as
    by (rule section_links_outward)
  with l show ?thesis
    by (auto simp: extractEpisodeData_def Let_def dest: in_set_takeD)
qed

lemma foldl_set_add_set: "set (foldl set_add acc xs) = set acc \<union> set xs"
  by (induction xs arbitrary: acc) (auto simp: set_add_def)

lemma map_filter_all:
  "(\<And>x y. f x = Some y \<Longrightarrow> Q y) \<Longrightarrow> \<forall>y \<in> set (List.map_filter f xs). Q y"
  by (induction xs) (auto split: option.splits)

lemma extractLinks_outward:
  "l \<in> set (extractLinks parse html seedUrl) \<Longrightarrow> outward parse seedUrl l"
proof -
  assume l: "l \<in> set (extractLinks parse html seedUrl)"
  let ?f = "\<lambda>m. case normalizeUrl parse m seedUrl of
                   None \<Rightarrow> None
                 | Some normalized \<Rightarrow>
                     if \<not> str_includes normalized ''casefilepodcast.com''
                     then Some normalized else None"
  have "\<forall>y \<in> set (List.map_filter ?f (scan a_re 0 html)). outward parse seedUrl y"
    by (rule map_filter_all) (auto simp: outward_def split: option.splits if_splits)
  with l show ?thesis
    by (auto simp: extractLinks_def Let_def foldl_set_add_set dest!: in_set_takeD)
qed

text \<open>
  Claim C2, as the code has it. For every seed page HTML and every seed URL, on either
  endpoint, the extracted source link list contains no link that contains the text
  \<open>casefilepodcast.com\<close>: that fixed site is the one the code excludes, whatever the
  domain of the supplied seed URL is.
\<close>

theorem source_links_exclude_casefile:
  "(\<forall>l \<in> set (sourceLinks (extractEpisodeData load parse html seedUrl)).
      \<not> str_includes l ''casefilepodcast.com'')
   \<and> (\<forall>l \<in> set (extractLinks parse html seedUrl).
      \<not> str_includes l ''casefilepodcast.com'')"
  using extractEpisodeData_outward [of _ load parse html seedUrl]
        extractLinks_outward [of _ parse html seedUrl]
  unfolding outward_def by blast

lemma run_links_json:
  "extractLinks URL_table html_links ''http://example.com/episode''
     = [''http://example.com/sources'', ''http://news.example.org/story'']"
  by code_simp

lemma run_links_stream:
  "sourceLinks (extractEpisodeData load_table URL_table html_links ''http://example.com/episode'')
     = [''http://example.com/sources'', ''http://news.example.org/story'']"
  by code_simp

theorem source_links_exclude_casefile_witness:
  "extractLinks URL_table html_links ''http://example.com/episode''
     = [''http://example.com/sources'', ''http://news.example.org/story'']
   \<and> sourceLinks (extractEpisodeData load_table URL_table html_links
                     ''http://example.com/episode'')
     = [''http://example.com/sources'', ''http://news.example.org/story'']
   \<and> \<not> str_includes ''http://example.com/sources'' ''casefilepodcast.com''
   \<and> \<not> str_includes ''http://news.example.org/story'' ''casefilepodcast.com''"
  using source_links_exclude_casefile
          [of load_table URL_table html_links "''http://example.com/episode''"]
        run_links_json run_links_stream
  by simp

text \<open>
  The claim as the specification words it fails: for a seed page on \<open>example.com\<close>, a link
  to \<open>example.com\<close> itself is in the source link list of both endpoints.
\<close>

theorem seed_domain_counterexample:
  "extractLinks URL_table html_links ''http://example.com/episode''
     = [''http://example.com/sources'', ''http://news.example.org/story'']
   \<and> sourceLinks (extractEpisodeData load_table URL_table html_links
                     ''http://example.com/episode'')
     = [''http://example.com/sources'', ''http://news.example.org/story'']
   \<and> map_option hostname (URL_table ''http://example.com/episode'' None) = Some ''example.com''
   \<and> map_option hostname (URL_table ''http://example.com/sources'' None) = Some ''example.com''"
  by code_simp

section \<open>Icons\<close>

lemma images_each_skip:
  "image_of_el parse pu pt el = None \<Longrightarrow>
   images_each parse pu pt (els_before @ el # els_after) acc = images_each parse pu pt (els_before @ els_after) acc"
proof (induction els_before arbitrary: acc)
  case Nil
  then show ?case by (cases els_after) simp_all
next
  case (Cons x els_before)
  then show ?case by (simp split: option.splits)
qed

lemma parseInt_nonempty: "parseInt w = Some n \<Longrightarrow> w \<noteq> []"
  by (auto simp: parseInt_def trimStart_def Let_def)

lemma image_of_el_tiny:
  assumes "(\<exists>w n. attr el ''width'' = Some w \<and> parseInt w = Some n \<and> 0 < n \<and> n < 100)
         \<or> (\<exists>h n. attr el ''height'' = Some h \<and> parseInt h = Some n \<and> 0 < n \<and> n < 100)"
  shows "image_of_el parse pageUrl pageTitle el = None"
proof -
  have "tiny (parseInt (orDefault (attr el ''width'') ''0''))
        \<or> tiny (parseInt (orDefault (attr el ''height'') ''0''))"
    using assms parseInt_nonempty by (fastforce simp: tiny_def orDefault_def)
  then show ?thesis
    by (auto simp: image_of_el_def Let_def split: option.splits)
qed

lemma image_of_el_large:
  assumes "attr big ''src'' = Some s" and "s \<noteq> []"
    and "normalizeUrl parse s pageUrl = Some u" and "isImageUrl u"
    and "attr big ''width'' = Some bw" and "parseInt bw = Some 150"
    and "attr big ''height'' = Some bh" and "parseInt bh = Some 150"
  shows "\<exists>c. image_of_el parse pageUrl pageTitle big = Some c \<and> url c = u"
proof -
  have "bw \<noteq> []" and "bh \<noteq> []"
    using assms parseInt_nonempty by blast+
  with assms show ?thesis
    by (simp add: image_of_el_def Let_def orElse_def truthy_def orDefault_def tiny_def)
qed

lemma two_images_page:
  assumes big: "\<not> in_removed big" "attr big ''src'' = Some s" "s \<noteq> []"
      "normalizeUrl parse s pageUrl = Some u" "isImageUrl u"
      "attr big ''width'' = Some bw" "parseInt bw = Some 150"
      "attr big ''height'' = Some bh" "parseInt bh = Some 150"
    and small: "attr small ''width'' = Some sw" "parseInt sw = Some 50"
      "attr small ''height'' = Some sh" "parseInt sh = Some 50"
    and page: "img_els (load html) = [big, small] \<or> img_els (load html) = [small, big]"
      "og_image (load html) = None"
  shows "\<exists>c. extractImagesFromPage load parse html pageUrl pageTitle = [c] \<and> url c = u
            \<and> image_of_el parse pageUrl pageTitle big = Some c"
proof -
  obtain c where c: "image_of_el parse pageUrl pageTitle big = Some c" "url c = u"
    using image_of_el_large [OF big(2-9)] by blast
  have none: "image_of_el parse pageUrl pageTitle small = None"
    using small by (intro image_of_el_tiny) simp
  have cap: "\<not> maxImagesPerPage CONFIG_stream \<le> 0" "\<not> maxImagesPerPage CONFIG_stream \<le> Suc 0"
    by (simp_all add: CONFIG_stream_def)
  have "images_each parse pageUrl pageTitle
          (filter (\<lambda>el. \<not> in_removed el) (img_els (load html))) [] = [c]"
    using page(1) big(1) c(1) none cap by auto
  with page(2) c show ?thesis
    by (simp add: extractImagesFromPage_def Let_def truthy_def)
qed

text \<open>
  Claim C8, as the code has it on the streaming endpoint. An image element whose \<open>width\<close>
  attribute, or whose \<open>height\<close> attribute, reads (by \<open>parseInt\<close>) as an integer above 0
  and under 100 contributes no candidate: the page is extracted as if the element were not
  there. In particular, for every page whose image elements are one 150 by 150 image and
  one 50 by 50 image, in either order, only the 150 by 150 image is extracted: the 150 by
  150 image standing outside the regions the extractor removes, with a source that
  normalizes to an image URL, and the page naming no \<open>og:image\<close>, the extracted list is
  exactly the one candidate of that image.
\<close>

theorem icons_excluded:
  "((\<exists>w n. attr el ''width'' = Some w \<and> parseInt w = Some n \<and> 0 < n \<and> n < 100)
     \<or> (\<exists>h n. attr el ''height'' = Some h \<and> parseInt h = Some n \<and> 0 < n \<and> n < 100) \<longrightarrow>
       image_of_el parse pageUrl pageTitle el = None
       \<and> images_each parse pageUrl pageTitle (els_before @ el # els_after) acc
           = images_each parse pageUrl pageTitle (els_before @ els_after) acc
       \<and> (img_els (load html) = els_before @ el # els_after \<longrightarrow>
            extractImagesFromPage load parse html pageUrl pageTitle
              = extractImagesFromPage (\<lambda>h. (load h)\<lparr>img_els := els_before @ els_after\<rparr>) parse html
                  pageUrl pageTitle))
   \<and> (\<not> in_removed big \<and> attr big ''src'' = Some s \<and> s \<noteq> []
       \<and> normalizeUrl parse s pageUrl = Some u \<and> isImageUrl u
       \<and> attr big ''width'' = Some bw \<and> parseInt bw = Some 150
       \<and> attr big ''height'' = Some bh \<and> parseInt bh = Some 150
       \<and> attr small ''width'' = Some sw \<and> parseInt sw = Some 50
       \<and> attr small ''height'' = Some sh \<and> parseInt sh = Some 50
       \<and> (img_els (load html) = [big, small] \<or> img_els (load html) = [small, big])
       \<and> og_image (load html) = None \<longrightarrow>
       (\<exists>c. extractImagesFromPage load parse html pageUrl pageTitle = [c] \<and> url c = u
           \<and> image_of_el parse pageUrl pageTitle big = Some c))"
  (is "?each \<and> ?page")
proof -
  have ?each
  proof
    assume small: "(\<exists>w n. attr el ''width'' = Some w \<and> parseInt w = Some n \<and> 0 < n \<and> n < 100)
       \<or> (\<exists>h n. attr el ''height'' = Some h \<and> parseInt h = Some n \<and> 0 < n \<and> n < 100)"
    then have none: "image_of_el parse pageUrl pageTitle el = None"
      by (rule image_of_el_tiny)
    then have each: "images_each parse pageUrl pageTitle (els_before @ el # els_after) acc
                       = images_each parse pageUrl pageTitle (els_before @ els_after) acc" for acc
      by (rule images_each_skip)
    have "images_each parse pageUrl pageTitle
            (filter (\<lambda>el. \<not> in_removed el) (els_before @ el # els_after)) []
          = images_each parse pageUrl pageTitle
            (filter (\<lambda>el. \<not> in_removed el) (els_before @ els_after)) []"
      using none by (simp add: images_each_skip)
    then have whole: "img_els (load html) = els_before @ el # els_after \<longrightarrow>
            extractImagesFromPage load parse html pageUrl pageTitle
              = extractImagesFromPage (\<lambda>h. (load h)\<lparr>img_els := els_before @ els_after\<rparr>) parse html
                  pageUrl pageTitle"
      by (auto simp: extractImagesFromPage_def Let_def split: option.splits)
    from none each whole
    show "image_of_el parse pageUrl pageTitle el = None
       \<and> images_each parse pageUrl pageTitle (els_before @ el # els_after) acc
           = images_each parse pageUrl pageTitle (els_before @ els_after) acc
       \<and> (img_els (load html) = els_before @ el # els_after \<longrightarrow>
            extractImagesFromPage load parse html pageUrl pageTitle
              = extractImagesFromPage (\<lambda>h. (load h)\<lparr>img_els := els_before @ els_after\<rparr>) parse html
                  pageUrl pageTitle)"
      by blast
  qed
  moreover have ?page
    using two_images_page [of big s parse pageUrl u bw bh small sw sh load html pageTitle]
    by blast
  ultimately show ?thesis by blast
qed

lemma run_sizes_facts:
  "attr (plain_img [(''src'', ''http://example.com/big.jpg''), (''width'', ''150''),
                   (''height'', ''150'')]) ''src'' = Some ''http://example.com/big.jpg''
   \<and> attr (plain_img [(''src'', ''http://example.com/big.jpg''), (''width'', ''150''),
                   (''height'', ''150'')]) ''width'' = Some ''150''
   \<and> attr (plain_img [(''src'', ''http://example.com/big.jpg''), (''width'', ''150''),
                   (''height'', ''150'')]) ''height'' = Some ''150''
   \<and> \<not> in_removed (plain_img [(''src'', ''http://example.com/big.jpg''), (''width'', ''150''),
                   (''height'', ''150'')])
   \<and> attr (plain_img [(''src'', ''http://example.com/small.jpg''), (''width'', ''50''),
                    (''height'', ''50'')]) ''width'' = Some ''50''
   \<and> attr (plain_img [(''src'', ''http://example.com/small.jpg''), (''width'', ''50''),
                    (''height'', ''50'')]) ''height'' = Some ''50''
   \<and> parseInt ''150'' = Some 150 \<and> parseInt ''50'' = Some 50
   \<and> normalizeUrl URL_table ''http://example.com/big.jpg'' ''http://example.com/episode''
       = Some ''http://example.com/big.jpg''
   \<and> isImageUrl ''http://example.com/big.jpg''
   \<and> og_image (load_table html_sizes) = None"
  by code_simp

lemma run_sizes_page:
  "img_els (load_table html_sizes)
     = [plain_img [(''src'', ''http://example.com/big.jpg''), (''width'', ''150''),
                   (''height'', ''150'')],
        plain_img [(''src'', ''http://example.com/small.jpg''), (''width'', ''50''),
                   (''height'', ''50'')]]"
  by (simp add: load_table_def doc_sizes_def plain_doc_def)

theorem icons_excluded_witness:
  "image_of_el URL_table ''http://example.com/episode'' ''Gallery''
     (plain_img [(''src'', ''http://example.com/small.jpg''), (''width'', ''50''),
                 (''height'', ''50'')]) = None
   \<and> extractImagesFromPage load_table URL_table html_sizes ''http://example.com/episode''
         ''Gallery''
       = extractImagesFromPage
           (\<lambda>h. (load_table h)\<lparr>img_els :=
              [plain_img [(''src'', ''http://example.com/big.jpg''), (''width'', ''150''),
                          (''height'', ''150'')]] @ []\<rparr>)
           URL_table html_sizes ''http://example.com/episode'' ''Gallery''
   \<and> (\<exists>c. extractImagesFromPage load_table URL_table html_sizes ''http://example.com/episode''
             ''Gallery'' = [c]
          \<and> url c = ''http://example.com/big.jpg''
          \<and> image_of_el URL_table ''http://example.com/episode'' ''Gallery''
               (plain_img [(''src'', ''http://example.com/big.jpg''), (''width'', ''150''),
                           (''height'', ''150'')]) = Some c)"
proof -
  note inst = icons_excluded
    [where el = "plain_img [(''src'', ''http://example.com/small.jpg''), (''width'', ''50''),
                            (''height'', ''50'')]"
       and els_before = "[plain_img [(''src'', ''http://example.com/big.jpg''), (''width'', ''150''),
                               (''height'', ''150'')]]"
       and els_after = "[]" and load = load_table and html = html_sizes and parse = URL_table
       and pageUrl = "''http://example.com/episode''" and pageTitle = "''Gallery''"
       and big = "plain_img [(''src'', ''http://example.com/big.jpg''), (''width'', ''150''),
                             (''height'', ''150'')]"
       and small = "plain_img [(''src'', ''http://example.com/small.jpg''), (''width'', ''50''),
                               (''height'', ''50'')]"
       and s = "''http://example.com/big.jpg''" and u = "''http://example.com/big.jpg''"
       and bw = "''150''" and bh = "''150''" and sw = "''50''" and sh = "''50''"]
  have w: "\<exists>w n. attr (plain_img [(''src'', ''http://example.com/small.jpg''), (''width'', ''50''),
                    (''height'', ''50'')]) ''width'' = Some w \<and> parseInt w = Some n
                 \<and> 0 < n \<and> n < 100"
    using run_sizes_facts by (intro exI [of _ "''50''"] exI [of _ 50]) simp
  have page: "img_els (load_table html_sizes)
     = [plain_img [(''src'', ''http://example.com/big.jpg''), (''width'', ''150''),
                   (''height'', ''150'')]]
       @ plain_img [(''src'', ''http://example.com/small.jpg''), (''width'', ''50''),
                    (''height'', ''50'')] # []"
    using run_sizes_page by simp
  have nonempty: "''http://example.com/big.jpg'' \<noteq> []"
    by simp
  from inst w page run_sizes_page run_sizes_facts nonempty show ?thesis by blast
qed

text \<open>
  The claim as the specification words it fails. On the streaming endpoint, an image whose
  stated width and height are 0 is extracted: the test is \<open>width > 0 && width < 100\<close>, 0
  being also what a missing attribute reads as. On the JSON endpoint, a 50 by 50 image is
  extracted when its tag states the height only, the width being the only size read there,
  and when a \<open>data-width\<close> attribute stands before its \<open>width\<close>, the first \<open>width=\<close> of the
  tag being the text read.
\<close>

theorem zero_width_counterexample:
  "map url (extractImagesFromPage load_table URL_table html_zero ''http://example.com/episode''
              ''Hidden'') = [''http://example.com/hidden.jpg'']
   \<and> map (\<lambda>el. (attr el ''width'', attr el ''height'')) (img_els (load_table html_zero))
       = [(Some ''0'', Some ''0'')]
   \<and> parseInt ''0'' = Some 0
   \<and> map url (extractImages URL_table html_height_only ''http://example.com/episode'' ''Icons'')
       = [''http://example.com/small.jpg'']
   \<and> search width_re html_height_only = None
   \<and> map url (extractImages URL_table html_data_width ''http://example.com/episode'' ''Icons'')
       = [''http://example.com/small.jpg'']
   \<and> search width_re html_data_width = Some ''640''"
  by code_simp

section \<open>Stripping the code fence\<close>

lemma str_includes_length: "str_includes s sub \<Longrightarrow> length sub \<le> length s"
  by (induction s) (auto dest: prefix_length_le)

lemma str_includes_prefix_part: "str_includes s (p @ q) \<Longrightarrow> str_includes s p"
  by (induction s) (auto dest: append_prefixD)

lemma prefix_across:
  "prefix sep (a @ c # rest) \<Longrightarrow> c \<notin> set sep \<Longrightarrow> prefix sep a"
  by (auto simp: prefix_append prefix_Cons)

lemma not_prefix_across:
  assumes "\<not> prefix sep a" and "c \<notin> set sep"
  shows "\<not> prefix sep (a @ c # rest)"
proof
  assume "prefix sep (a @ c # rest)"
  from this assms(2) have "prefix sep a" by (rule prefix_across)
  with assms(1) show False by simp
qed

lemma split_first_at_sep: "sep \<noteq> [] \<Longrightarrow> split_first sep (sep @ b) = Some ([], b)"
  by (cases sep) auto

lemma split_first_none: "\<not> str_includes s sep \<Longrightarrow> split_first sep s = None"
  by (induction s) simp_all

lemma split_first_after:
  "\<not> str_includes a sep \<Longrightarrow> c \<notin> set sep \<Longrightarrow> sep \<noteq> [] \<Longrightarrow>
   split_first sep (a @ c # sep @ b) = Some (a @ [c], b)"
proof (induction a)
  case Nil
  have "\<not> prefix sep (c # sep @ b)"
    using Nil.prems by (cases sep) auto
  then show ?case using Nil.prems by (simp add: split_first_at_sep)
next
  case (Cons y a)
  have "\<not> prefix sep (y # a)" and a: "\<not> str_includes a sep"
    using Cons.prems(1) by auto
  then have "\<not> prefix sep ((y # a) @ c # sep @ b)"
    using Cons.prems(2) by (intro not_prefix_across)
  with Cons.IH [OF a Cons.prems(2,3)] show ?case by simp
qed

lemma not_includes_before_fence:
  "\<not> str_includes a sep \<Longrightarrow> c \<notin> set sep \<Longrightarrow> sep \<noteq> [] \<Longrightarrow> x \<noteq> [] \<Longrightarrow>
   \<not> str_includes (a @ c # sep) (sep @ x)"
proof (induction a)
  case Nil
  have "\<not> prefix (sep @ x) (c # sep)"
    using Nil.prems by (cases sep) auto
  moreover have "\<not> str_includes sep (sep @ x)"
    using Nil.prems str_includes_length by fastforce
  ultimately show ?case by simp
next
  case (Cons y a)
  have "\<not> prefix sep (y # a)" and a: "\<not> str_includes a sep"
    using Cons.prems(1) by auto
  then have "\<not> prefix sep ((y # a) @ c # sep)"
    using Cons.prems(2) by (intro not_prefix_across)
  then have "\<not> prefix (sep @ x) ((y # a) @ c # sep)"
    using append_prefixD by blast
  with Cons.IH [OF a Cons.prems(2,3,4)] show ?case by simp
qed

lemma split_none: "sep \<noteq> [] \<Longrightarrow> \<not> str_includes s sep \<Longrightarrow> split sep s = [s]"
  by (subst split.simps) (simp add: split_first_none)

lemma split_some:
  "sep \<noteq> [] \<Longrightarrow> split_first sep s = Some (before, after) \<Longrightarrow>
   split sep s = before # split sep after"
  by (subst split.simps) simp

lemma split_nonempty: "sep \<noteq> [] \<Longrightarrow> split sep s \<noteq> []"
  by (subst split.simps) (auto split: option.splits)

lemma isWhiteSpace_newline: "isWhiteSpace (CHR ''\<newline>'')"
  by (simp add: isWhiteSpace_def)

lemma trim_newlines: "trim (CHR ''\<newline>'' # t @ ''\<newline>'') = trim t"
proof -
  have start: "trimStart (CHR ''\<newline>'' # t @ ''\<newline>'') = trimStart (t @ ''\<newline>'')"
    using isWhiteSpace_newline by (simp add: trimStart_def)
  show ?thesis
  proof (cases "\<forall>c \<in> set t. isWhiteSpace c")
    case True
    then have "trimStart t = []"
      by (simp add: trimStart_def)
    moreover from True have "\<forall>c \<in> set (t @ ''\<newline>''). isWhiteSpace c"
      using isWhiteSpace_newline by simp
    then have "trimStart (t @ ''\<newline>'') = []"
      unfolding trimStart_def by (simp only: dropWhile_eq_Nil_conv)
    ultimately show ?thesis
      by (simp add: trim_def start)
  next
    case False
    then obtain x where "x \<in> set t" "\<not> isWhiteSpace x" by blast
    then have "trimStart (t @ ''\<newline>'') = trimStart t @ ''\<newline>''"
      unfolding trimStart_def by (rule dropWhile_append1)
    then show ?thesis
      using isWhiteSpace_newline by (simp add: trim_def start trimEnd_def)
  qed
qed

lemma not_includes_snoc:
  "\<not> str_includes a sep \<Longrightarrow> c \<notin> set sep \<Longrightarrow> sep \<noteq> [] \<Longrightarrow> \<not> str_includes (a @ [c]) sep"
proof (induction a)
  case Nil
  then show ?case by (cases sep) auto
next
  case (Cons y a)
  have "\<not> prefix sep (y # a)" and a: "\<not> str_includes a sep"
    using Cons.prems(1) by auto
  then have "\<not> prefix sep ((y # a) @ c # [])"
    using Cons.prems(2) by (intro not_prefix_across)
  with Cons.IH [OF a Cons.prems(2,3)] show ?case by simp
qed

lemma jsonStr_plain: "\<not> str_includes t ''```'' \<Longrightarrow> jsonStr t = Some t"
  using str_includes_prefix_part [of t "''```''" "''json''"] by (auto simp: jsonStr_def)

lemma jsonStr_json_fence:
  assumes "\<not> str_includes t ''```''"
  shows "jsonStr (''```json\<newline>'' @ t @ ''\<newline>```'') = Some (CHR ''\<newline>'' # t @ ''\<newline>'')"
proof -
  let ?rest = "(CHR ''\<newline>'' # t) @ CHR ''\<newline>'' # ''```'' @ []"
  have a: "\<not> str_includes (CHR ''\<newline>'' # t) ''```''"
    using assms by simp
  have inc: "str_includes (''```json\<newline>'' @ t @ ''\<newline>```'') ''```json''"
    by simp
  have s1: "split_first ''```json'' (''```json'' @ ?rest) = Some ([], ?rest)"
    by (rule split_first_at_sep) simp
  have no: "\<not> str_includes ((CHR ''\<newline>'' # t) @ CHR ''\<newline>'' # ''```'') (''```'' @ ''json'')"
    by (rule not_includes_before_fence [OF a]) simp_all
  then have s2: "split ''```json'' ?rest = [?rest]"
    by (simp add: split_none)
  have s3: "split ''```json'' (''```json'' @ ?rest) = [] # [?rest]"
    using split_some [OF _ s1] s2 by simp
  have s4: "split_first ''```'' ?rest = Some ((CHR ''\<newline>'' # t) @ ''\<newline>'', [])"
    by (rule split_first_after [OF a]) simp_all
  have s5: "split ''```'' ?rest = ((CHR ''\<newline>'' # t) @ ''\<newline>'') # split ''```'' []"
    by (rule split_some [OF _ s4]) simp
  show ?thesis
    using inc s3 s5 by (simp add: jsonStr_def seg_def)
qed

lemma jsonStr_bare_fence:
  assumes "\<not> str_includes t ''```''"
  shows "jsonStr (''```\<newline>'' @ t @ ''\<newline>```'') = Some (CHR ''\<newline>'' # t @ ''\<newline>'')"
proof -
  let ?rest = "(CHR ''\<newline>'' # t) @ CHR ''\<newline>'' # ''```'' @ []"
  let ?inner = "(CHR ''\<newline>'' # t) @ ''\<newline>''"
  have a: "\<not> str_includes (CHR ''\<newline>'' # t) ''```''"
    using assms by simp
  have no: "\<not> str_includes ((CHR ''\<newline>'' # t) @ CHR ''\<newline>'' # ''```'') (''```'' @ ''json'')"
    by (rule not_includes_before_fence [OF a]) simp_all
  then have noj: "\<not> str_includes (''```\<newline>'' @ t @ ''\<newline>```'') ''```json''"
    by simp
  have inc: "str_includes (''```\<newline>'' @ t @ ''\<newline>```'') ''```''"
    by simp
  have s1: "split_first ''```'' (''```'' @ ?rest) = Some ([], ?rest)"
    by (rule split_first_at_sep) simp
  have s4: "split_first ''```'' ?rest = Some (?inner, [])"
    by (rule split_first_after [OF a]) simp_all
  have s5: "split ''```'' ?rest = ?inner # split ''```'' []"
    by (rule split_some [OF _ s4]) simp
  have s3: "split ''```'' (''```'' @ ?rest) = [] # ?inner # split ''```'' []"
    using split_some [OF _ s1] s5 by simp
  have "\<not> str_includes ?inner ''```''"
    by (rule not_includes_snoc [OF a]) simp_all
  then have s6: "split ''```'' ?inner = [?inner]"
    by (simp add: split_none)
  show ?thesis
    using noj inc s3 s6 by (simp add: jsonStr_def seg_def)
qed

text \<open>
  Claim C3, as the code has it. For every response text \<open>t\<close> that contains no run of three
  backticks, the same text wrapped in a fenced code block, with a \<open>```json\<close> or a bare
  \<open>```\<close> fence on lines of their own, is stripped by the shaping step to the text that
  \<open>JSON.parse\<close> is given for the unwrapped \<open>t\<close> (namely \<open>t\<close> trimmed), so the wrapped and
  the unwrapped response parse to the identical value, or fail alike. This is the shaping
  step of both endpoints.
\<close>

theorem fenced_response_parses_like_unfenced:
  assumes "\<not> str_includes t ''```''"
  shows "parseResponse json_parse (''```json\<newline>'' @ t @ ''\<newline>```'') = parseResponse json_parse t
       \<and> parseResponse json_parse (''```\<newline>'' @ t @ ''\<newline>```'') = parseResponse json_parse t
       \<and> parseResponse json_parse t = json_parse (trim t)"
  using jsonStr_plain [OF assms] jsonStr_json_fence [OF assms] jsonStr_bare_fence [OF assms]
  by (simp add: parseResponse_def trim_newlines)

lemma reply_no_backticks: "\<not> str_includes reply_text ''```''"
  by code_simp

lemma reply_parses: "json_table (trim reply_text) = Inr reply_value"
  by code_simp

theorem fenced_response_parses_like_unfenced_witness:
  "\<not> str_includes reply_text ''```''
   \<and> parseResponse json_table (''```json\<newline>'' @ reply_text @ ''\<newline>```'') = Inr reply_value
   \<and> parseResponse json_table (''```\<newline>'' @ reply_text @ ''\<newline>```'') = Inr reply_value
   \<and> parseResponse json_table reply_text = Inr reply_value"
  using fenced_response_parses_like_unfenced [OF reply_no_backticks, of json_table]
        reply_no_backticks reply_parses
  by simp

text \<open>
  The claim as the specification words it fails for a response that holds three backticks
  inside a JSON string: the text is valid JSON, and wrapped in either fence it is cut at the
  backticks of the string, leaving \<open>{"summary":"\<close>, which does not parse. (Unwrapped,
  the same text is taken for a fenced one and cut as well.)
\<close>

theorem fenced_backticks_counterexample:
  \<open>json_table backticks_text = Inr backticks_value
   \<and> parseResponse json_table backticks_text = Inl ''SyntaxError: Unexpected end of JSON input''
   \<and> jsonStr (''```json\<newline>'' @ backticks_text @ ''\<newline>```'') = Some ''\<newline>{"summary":"''
   \<and> parseResponse json_table (''```json\<newline>'' @ backticks_text @ ''\<newline>```'')
       = Inl ''SyntaxError: Unexpected end of JSON input''
   \<and> parseResponse json_table (''```\<newline>'' @ backticks_text @ ''\<newline>```'')
       = Inl ''SyntaxError: Unexpected end of JSON input''\<close>
  by code_simp

section \<open>Shaping the result\<close>

lemma mapM_append:
  "mapM f (xs @ ys) =
     (case mapM f xs of
        Inl err \<Rightarrow> Inl err
      | Inr as \<Rightarrow> (case mapM f ys of Inl err \<Rightarrow> Inl err | Inr bs \<Rightarrow> Inr (as @ bs)))"
  by (induction xs) (auto split: sum.splits)

lemma mapM_cong_at:
  "f e = f e' \<Longrightarrow> mapM f (es1 @ e # es2) = mapM f (es1 @ e' # es2)"
  by (induction es1) (auto split: sum.splits)

lemma mapM_total: "(\<And>x. x \<in> set xs \<Longrightarrow> \<exists>y. f x = Inr y) \<Longrightarrow> \<exists>ys. mapM f xs = Inr ys"
proof (induction xs)
  case Nil
  then show ?case by simp
next
  case (Cons x xs)
  then obtain y ys where "f x = Inr y" "mapM f xs = Inr ys"
    by (meson list.set_intros)
  then show ?case by simp
qed

lemma mapM_map: "mapM f xs = Inr ys \<Longrightarrow> (\<And>x y. f x = Inr y \<Longrightarrow> g y = h x) \<Longrightarrow> map g ys = map h xs"
  by (induction xs arbitrary: ys) (auto split: sum.splits)

lemma at_index_out_of_range:
  "i < 0 \<or> int (length uniqueImages) \<le> i \<Longrightarrow> at_index uniqueImages (Some i) = None"
  by (auto simp: at_index_def)

lemma at_index_member: "at_index uniqueImages idx = Some img \<Longrightarrow> img \<in> set uniqueImages"
  by (auto simp: at_index_def split: option.splits if_splits)

lemma map_filter_append: "List.map_filter f (xs @ ys) = List.map_filter f xs @ List.map_filter f ys"
  by (induction xs) (auto split: option.splits)

lemma shape_entity_skip:
  assumes "resolve r = Inr None"
  shows "shape_entity resolve (e\<lparr>in_images := Some (before @ r # after)\<rparr>)
           = shape_entity resolve (e\<lparr>in_images := Some (before @ after)\<rparr>)"
proof -
  have "mapM resolve (r # after) =
          (case mapM resolve after of Inl err \<Rightarrow> Inl err | Inr bs \<Rightarrow> Inr (None # bs))"
    using assms by simp
  then show ?thesis
    by (simp add: shape_entity_def mapM_append map_filter_append split: sum.splits)
qed

lemma shape_entity_name: "shape_entity resolve e = Inr out \<Longrightarrow> e_name out = in_name e"
  by (auto simp: shape_entity_def split: sum.splits)

lemma build_result_names:
  assumes "build_result resolve parse t s r listed = Inr res"
  shows "map e_name (r_entities res) = map in_name (case llm_entities r of None \<Rightarrow> [] | Some es \<Rightarrow> es)"
proof -
  from assms obtain shaped where
    m: "mapM (shape_entity resolve) (case llm_entities r of None \<Rightarrow> [] | Some es \<Rightarrow> es) = Inr shaped"
    and res: "r_entities res = shaped"
    by (auto simp: build_result_def split: sum.splits)
  from m have "map e_name shaped = map in_name (case llm_entities r of None \<Rightarrow> [] | Some es \<Rightarrow> es)"
    by (rule mapM_map) (rule shape_entity_name)
  with res show ?thesis by simp
qed

lemma build_result_cong_at:
  assumes "shape_entity resolve e = shape_entity resolve e'"
  shows "build_result resolve parse t s (r\<lparr>llm_entities := Some (es1 @ e # es2)\<rparr>) listed
           = build_result resolve parse t s (r\<lparr>llm_entities := Some (es1 @ e' # es2)\<rparr>) listed"
  using mapM_cong_at [of "shape_entity resolve" e e' es1 es2, OF assms]
  by (simp add: build_result_def split: sum.splits)

lemma attribution_total:
  "parse (sourcePageUrl img) None \<noteq> None \<Longrightarrow> \<exists>h. attribution_of parse (sourcePageUrl img) = Inr h"
  by (auto simp: attribution_of_def split: option.splits)

lemma resolve_ref_stream_total:
  assumes "\<forall>img \<in> set uniqueImages. parse (sourcePageUrl img) None \<noteq> None"
  shows "\<exists>d. resolve_ref_stream parse uniqueImages r = Inr d"
proof (cases "at_index uniqueImages (image_index r)")
  case None
  then show ?thesis by (simp add: resolve_ref_stream_def)
next
  case (Some img)
  with assms obtain h where "attribution_of parse (sourcePageUrl img) = Inr h"
    using at_index_member attribution_total by blast
  with Some show ?thesis by (simp add: resolve_ref_stream_def)
qed

lemma resolve_ref_json_total:
  assumes "\<forall>img \<in> set uniqueImages. parse (sourcePageUrl img) None \<noteq> None"
  shows "\<exists>d. resolve_ref_json parse uniqueImages r = Inr d"
proof (cases "at_index uniqueImages (image_index r)")
  case None
  then show ?thesis by (simp add: resolve_ref_json_def)
next
  case (Some img)
  with assms obtain h where "attribution_of parse (sourcePageUrl img) = Inr h"
    using at_index_member attribution_total by blast
  with Some show ?thesis by (simp add: resolve_ref_json_def)
qed

lemma shape_entity_total:
  assumes "\<And>r. \<exists>d. resolve r = Inr d"
  shows "\<exists>out. shape_entity resolve e = Inr out"
proof -
  have "\<exists>ds. mapM resolve (case in_images e of None \<Rightarrow> [] | Some refs \<Rightarrow> refs) = Inr ds"
    by (intro mapM_total assms)
  then obtain ds where "mapM resolve (case in_images e of None \<Rightarrow> [] | Some refs \<Rightarrow> refs) = Inr ds"
    by blast
  then show ?thesis by (simp add: shape_entity_def)
qed

lemma build_result_total:
  assumes "\<And>r. \<exists>d. resolve r = Inr d"
    and "\<forall>img \<in> set listed. parse (sourcePageUrl img) None \<noteq> None"
  shows "\<exists>res. build_result resolve parse t s r listed = Inr res"
proof -
  have "\<And>e. \<exists>out. shape_entity resolve e = Inr out"
    by (rule shape_entity_total) (rule assms(1))
  then have "\<exists>shaped. mapM (shape_entity resolve)
                (case llm_entities r of None \<Rightarrow> [] | Some es \<Rightarrow> es) = Inr shaped"
    by (intro mapM_total)
  then obtain shaped where
    "mapM (shape_entity resolve) (case llm_entities r of None \<Rightarrow> [] | Some es \<Rightarrow> es) = Inr shaped"
    by blast
  moreover have "\<And>img. img \<in> set listed \<Longrightarrow> \<exists>d. plain_image parse img = Inr d"
    using assms(2) by (auto simp: plain_image_def attribution_of_def split: option.splits)
  then have "\<exists>flat. mapM (plain_image parse) listed = Inr flat"
    by (intro mapM_total)
  then obtain flat where "mapM (plain_image parse) listed = Inr flat"
    by blast
  ultimately show ?thesis by (simp add: build_result_def)
qed

text \<open>
  Claim C4. Let an image reference carry an \<open>image_index\<close> that is negative or not below
  the length of the deduplicated image array. On either endpoint the reference resolves to
  \<open>null\<close> without an exception; the entity is shaped exactly as if the reference were not
  in its list, and so is the whole result (the entry is dropped, nothing is put in its
  place); and, the source page URL of every candidate being a URL that parses, the result
  is built without an error and holds every entity of the answer, this one included.
\<close>

theorem out_of_range_reference_dropped:
  assumes "image_index r = Some i" and "i < 0 \<or> int (length uniqueImages) \<le> i"
    and "resolve = resolve_ref_stream parse uniqueImages
         \<or> resolve = resolve_ref_json parse uniqueImages"
  shows "resolve r = Inr None
     \<and> shape_entity resolve (e\<lparr>in_images := Some (before @ r # after)\<rparr>)
         = shape_entity resolve (e\<lparr>in_images := Some (before @ after)\<rparr>)
     \<and> build_result resolve parse t s
           (llm\<lparr>llm_entities := Some (es1 @ e\<lparr>in_images := Some (before @ r # after)\<rparr> # es2)\<rparr>)
           listed
         = build_result resolve parse t s
           (llm\<lparr>llm_entities := Some (es1 @ e\<lparr>in_images := Some (before @ after)\<rparr> # es2)\<rparr>)
           listed
     \<and> ((\<forall>img \<in> set uniqueImages \<union> set listed. parse (sourcePageUrl img) None \<noteq> None) \<longrightarrow>
          (\<exists>res. build_result resolve parse t s
                    (llm\<lparr>llm_entities :=
                           Some (es1 @ e\<lparr>in_images := Some (before @ r # after)\<rparr> # es2)\<rparr>)
                    listed = Inr res
                 \<and> map e_name (r_entities res) = map in_name (es1 @ e # es2)))"
proof -
  have null: "resolve r = Inr None"
    using assms at_index_out_of_range [of i uniqueImages]
    by (auto simp: resolve_ref_stream_def resolve_ref_json_def)
  have skip: "shape_entity resolve (e\<lparr>in_images := Some (before @ r # after)\<rparr>)
                = shape_entity resolve (e\<lparr>in_images := Some (before @ after)\<rparr>)"
    using null by (rule shape_entity_skip)
  have same: "build_result resolve parse t s
           (llm\<lparr>llm_entities := Some (es1 @ e\<lparr>in_images := Some (before @ r # after)\<rparr> # es2)\<rparr>)
           listed
         = build_result resolve parse t s
           (llm\<lparr>llm_entities := Some (es1 @ e\<lparr>in_images := Some (before @ after)\<rparr> # es2)\<rparr>)
           listed"
    using skip by (rule build_result_cong_at)
  have total: "\<exists>res. build_result resolve parse t s
                    (llm\<lparr>llm_entities :=
                           Some (es1 @ e\<lparr>in_images := Some (before @ r # after)\<rparr> # es2)\<rparr>)
                    listed = Inr res
                 \<and> map e_name (r_entities res) = map in_name (es1 @ e # es2)"
    if ok: "\<forall>img \<in> set uniqueImages \<union> set listed. parse (sourcePageUrl img) None \<noteq> None"
  proof -
    have "\<And>x. \<exists>d. resolve x = Inr d"
      using assms(3) ok resolve_ref_stream_total [of uniqueImages parse]
            resolve_ref_json_total [of uniqueImages parse]
      by auto
    then obtain res where res: "build_result resolve parse t s
                    (llm\<lparr>llm_entities :=
                           Some (es1 @ e\<lparr>in_images := Some (before @ r # after)\<rparr> # es2)\<rparr>)
                    listed = Inr res"
      using build_result_total [of resolve listed parse] ok by blast
    from build_result_names [OF res] have "map e_name (r_entities res) = map in_name (es1 @ e # es2)"
      by simp
    with res show ?thesis by blast
  qed
  from null skip same total show ?thesis by blast
qed

lemma run_jane_in_range:
  "shape_entity (resolve_ref_stream URL_table [cand ''http://example.com/big.jpg'' ''Jane''])
     (jane\<lparr>in_images := Some ([ref_in_range] @ [])\<rparr>)
   = Inr \<lparr> e_name = Some ''Jane Doe'', e_type = Some ''Person'', e_role = [],
           e_description = Some ''The victim.'', e_pronouns = [],
           e_images = [\<lparr> d_url = ''http://example.com/big.jpg'', d_alt = ''Jane'', d_caption = [],
                          d_sourcePageUrl = ''http://example.com/episode'',
                          d_attribution = ''example.com'', d_relevance = Some ''portrait'',
                          d_people_shown = Some [], d_date = Some [], d_location = Some [] \<rparr>] \<rparr>"
  by code_simp

lemma run_out_of_range:
  "image_index ref_out_of_range = Some 7
   \<and> int (length [cand ''http://example.com/big.jpg'' ''Jane'']) \<le> 7"
  by code_simp

theorem out_of_range_reference_dropped_witness:
  "image_index ref_out_of_range = Some 7
   \<and> int (length [cand ''http://example.com/big.jpg'' ''Jane'']) \<le> 7
   \<and> resolve_ref_stream URL_table [cand ''http://example.com/big.jpg'' ''Jane''] ref_out_of_range
       = Inr None
   \<and> shape_entity (resolve_ref_stream URL_table [cand ''http://example.com/big.jpg'' ''Jane''])
         (jane\<lparr>in_images := Some ([ref_in_range] @ ref_out_of_range # [])\<rparr>)
       = Inr \<lparr> e_name = Some ''Jane Doe'', e_type = Some ''Person'', e_role = [],
           e_description = Some ''The victim.'', e_pronouns = [],
           e_images = [\<lparr> d_url = ''http://example.com/big.jpg'', d_alt = ''Jane'', d_caption = [],
                          d_sourcePageUrl = ''http://example.com/episode'',
                          d_attribution = ''example.com'', d_relevance = Some ''portrait'',
                          d_people_shown = Some [], d_date = Some [], d_location = Some [] \<rparr>] \<rparr>"
  using out_of_range_reference_dropped
          [where r = ref_out_of_range and i = 7
             and uniqueImages = "[cand ''http://example.com/big.jpg'' ''Jane'']"
             and resolve = "resolve_ref_stream URL_table
                              [cand ''http://example.com/big.jpg'' ''Jane'']"
             and parse = URL_table and e = jane and before = "[ref_in_range]" and after = "[]"]
        run_out_of_range run_jane_in_range
  by simp

lemma mapM_Inr_map: "mapM f xs = Inr ys \<Longrightarrow> map Inr ys = map f xs"
  by (induction xs arbitrary: ys) (auto split: sum.splits)

lemma mapM_nth:
  assumes "mapM f xs = Inr ys"
  shows "length ys = length xs \<and> (\<forall>i<length xs. f (xs ! i) = Inr (ys ! i))"
proof -
  have eq: "map Inr ys = map f xs"
    using assms by (rule mapM_Inr_map)
  then have len: "length ys = length xs"
    by (metis length_map)
  have "f (xs ! i) = Inr (ys ! i)" if "i < length xs" for i
  proof -
    have "map f xs ! i = f (xs ! i)" and "map Inr ys ! i = Inr (ys ! i)"
      using that len by simp_all
    with eq show ?thesis by metis
  qed
  with len show ?thesis by blast
qed

lemma build_result_entities:
  assumes "build_result resolve parse t s r listed = Inr res" and "llm_entities r = Some es"
  shows "length (r_entities res) = length es
       \<and> (\<forall>i<length es. shape_entity resolve (es ! i) = Inr (r_entities res ! i))"
proof -
  from assms obtain shaped where
    m: "mapM (shape_entity resolve) es = Inr shaped" and res: "r_entities res = shaped"
    by (auto simp: build_result_def split: sum.splits)
  from m res show ?thesis
    using mapM_nth [of "shape_entity resolve" es shaped] by simp
qed

lemma shape_entity_fields:
  assumes "shape_entity resolve e = Inr out"
  shows "e_name out = in_name e \<and> e_type out = in_type e \<and> e_description out = in_description e
       \<and> e_role out = orDefault (in_role e) [] \<and> e_pronouns out = orDefault (in_pronouns e) []
       \<and> (in_role e = None \<longrightarrow> e_role out = [])
       \<and> (in_pronouns e = None \<longrightarrow> e_pronouns out = [])
       \<and> (in_images e = None \<longrightarrow> e_images out = [])"
  using assms by (auto simp: shape_entity_def orDefault_def split: sum.splits)

text \<open>
  Claim C10. For a parsed answer: when \<open>entities\<close> is absent the entity list of the result
  is empty, and building it raises nothing of its own; when \<open>summary\<close> is absent the
  summary is the empty string; an entity without \<open>images\<close> is shaped, without an error,
  with an empty image list; an entity without \<open>role\<close> or \<open>pronouns\<close> gets the empty
  string there. On either endpoint, the source page URL of every candidate being a URL
  that parses, the result is built without an error whatever fields are missing. The
  entity list of every result that is built has one entity for each entity of the answer,
  in order, each shaped as said: its name, type and description are the answer's, an absent
  (or empty) \<open>role\<close> or \<open>pronouns\<close> gives the empty string, and an absent \<open>images\<close> gives
  the empty list.
\<close>

theorem missing_fields_default:
  "(llm_entities r = None \<longrightarrow>
      build_result resolve parse t s r listed =
        (case mapM (plain_image parse) listed of
           Inl err \<Rightarrow> Inl err
         | Inr flat \<Rightarrow>
             Inr \<lparr> r_episode_title = t, r_episode_url = s,
                   r_summary = orDefault (llm_summary r) [],
                   r_entities = [], r_allImages = flat \<rparr>))
   \<and> (llm_summary r = None \<longrightarrow>
        (\<forall>res. build_result resolve parse t s r listed = Inr res \<longrightarrow> r_summary res = []))
   \<and> (in_images e = None \<longrightarrow>
        shape_entity resolve e =
          Inr \<lparr> e_name = in_name e, e_type = in_type e, e_role = orDefault (in_role e) [],
                e_description = in_description e,
                e_pronouns = orDefault (in_pronouns e) [], e_images = [] \<rparr>)
   \<and> (in_role e = None \<longrightarrow>
        (\<forall>out. shape_entity resolve e = Inr out \<longrightarrow> e_role out = []))
   \<and> (in_pronouns e = None \<longrightarrow>
        (\<forall>out. shape_entity resolve e = Inr out \<longrightarrow> e_pronouns out = []))
   \<and> ((resolve = resolve_ref_stream parse uniqueImages
         \<or> resolve = resolve_ref_json parse uniqueImages)
        \<and> (\<forall>img \<in> set uniqueImages \<union> set listed. parse (sourcePageUrl img) None \<noteq> None) \<longrightarrow>
        (\<exists>res. build_result resolve parse t s r listed = Inr res))
   \<and> (\<forall>res es. build_result resolve parse t s r listed = Inr res \<and> llm_entities r = Some es \<longrightarrow>
        length (r_entities res) = length es
        \<and> (\<forall>i<length es.
              shape_entity resolve (es ! i) = Inr (r_entities res ! i)
            \<and> e_name (r_entities res ! i) = in_name (es ! i)
            \<and> e_type (r_entities res ! i) = in_type (es ! i)
            \<and> e_description (r_entities res ! i) = in_description (es ! i)
            \<and> e_role (r_entities res ! i) = orDefault (in_role (es ! i)) []
            \<and> e_pronouns (r_entities res ! i) = orDefault (in_pronouns (es ! i)) []
            \<and> (in_role (es ! i) = None \<longrightarrow> e_role (r_entities res ! i) = [])
            \<and> (in_pronouns (es ! i) = None \<longrightarrow> e_pronouns (r_entities res ! i) = [])
            \<and> (in_images (es ! i) = None \<longrightarrow> e_images (r_entities res ! i) = [])))"
proof -
  have total: "\<exists>res. build_result resolve parse t s r listed = Inr res"
    if "resolve = resolve_ref_stream parse uniqueImages
         \<or> resolve = resolve_ref_json parse uniqueImages"
      and ok: "\<forall>img \<in> set uniqueImages \<union> set listed. parse (sourcePageUrl img) None \<noteq> None"
  proof -
    have "\<And>x. \<exists>d. resolve x = Inr d"
      using that resolve_ref_stream_total [of uniqueImages parse]
            resolve_ref_json_total [of uniqueImages parse]
      by auto
    then show ?thesis
      using build_result_total [of resolve listed parse] ok by blast
  qed
  have a: "llm_entities r = None \<longrightarrow>
      build_result resolve parse t s r listed =
        (case mapM (plain_image parse) listed of
           Inl err \<Rightarrow> Inl err
         | Inr flat \<Rightarrow>
             Inr \<lparr> r_episode_title = t, r_episode_url = s,
                   r_summary = orDefault (llm_summary r) [],
                   r_entities = [], r_allImages = flat \<rparr>)"
    by (simp add: build_result_def)
  have b: "llm_summary r = None \<longrightarrow>
        (\<forall>res. build_result resolve parse t s r listed = Inr res \<longrightarrow> r_summary res = [])"
    by (auto simp: build_result_def orDefault_def split: sum.splits)
  have c: "in_images e = None \<longrightarrow>
        shape_entity resolve e =
          Inr \<lparr> e_name = in_name e, e_type = in_type e, e_role = orDefault (in_role e) [],
                e_description = in_description e,
                e_pronouns = orDefault (in_pronouns e) [], e_images = [] \<rparr>"
    by (simp add: shape_entity_def)
  have d: "in_role e = None \<longrightarrow>
        (\<forall>out. shape_entity resolve e = Inr out \<longrightarrow> e_role out = [])"
    by (auto simp: shape_entity_def orDefault_def split: sum.splits)
  have e: "in_pronouns e = None \<longrightarrow>
        (\<forall>out. shape_entity resolve e = Inr out \<longrightarrow> e_pronouns out = [])"
    by (auto simp: shape_entity_def orDefault_def split: sum.splits)
  have f: "length (r_entities res) = length es
        \<and> (\<forall>i<length es.
              shape_entity resolve (es ! i) = Inr (r_entities res ! i)
            \<and> e_name (r_entities res ! i) = in_name (es ! i)
            \<and> e_type (r_entities res ! i) = in_type (es ! i)
            \<and> e_description (r_entities res ! i) = in_description (es ! i)
            \<and> e_role (r_entities res ! i) = orDefault (in_role (es ! i)) []
            \<and> e_pronouns (r_entities res ! i) = orDefault (in_pronouns (es ! i)) []
            \<and> (in_role (es ! i) = None \<longrightarrow> e_role (r_entities res ! i) = [])
            \<and> (in_pronouns (es ! i) = None \<longrightarrow> e_pronouns (r_entities res ! i) = [])
            \<and> (in_images (es ! i) = None \<longrightarrow> e_images (r_entities res ! i) = []))"
    if built: "build_result resolve parse t s r listed = Inr res \<and> llm_entities r = Some es"
    for res es
  proof -
    from built have ents: "length (r_entities res) = length es
       \<and> (\<forall>i<length es. shape_entity resolve (es ! i) = Inr (r_entities res ! i))"
      using build_result_entities [of resolve parse t s r listed res es] by blast
    then show ?thesis
      using shape_entity_fields [of resolve] by blast
  qed
  from a b c d e total f show ?thesis by blast
qed

lemma run_all_missing:
  "llm_entities \<lparr> llm_summary = None, llm_entities = None \<rparr> = None
   \<and> llm_summary \<lparr> llm_summary = None, llm_entities = None \<rparr> = None
   \<and> in_images (jane\<lparr>in_images := None\<rparr>) = None
   \<and> in_role (jane\<lparr>in_images := None\<rparr>) = None
   \<and> in_pronouns (jane\<lparr>in_images := None\<rparr>) = None
   \<and> mapM (plain_image URL_table) [cand ''http://example.com/big.jpg'' ''Jane'']
       = Inr [\<lparr> d_url = ''http://example.com/big.jpg'', d_alt = ''Jane'', d_caption = [],
                 d_sourcePageUrl = ''http://example.com/episode'',
                 d_attribution = ''example.com'', d_relevance = None,
                 d_people_shown = None, d_date = None, d_location = None \<rparr>]"
  by code_simp

lemma run_candidate_parses:
  "URL_table (sourcePageUrl (cand ''http://example.com/big.jpg'' ''Jane'')) None \<noteq> None"
  by code_simp

theorem missing_fields_default_witness:
  "build_result (resolve_ref_json URL_table [cand ''http://example.com/big.jpg'' ''Jane''])
     URL_table ''Episode'' ''http://example.com/episode''
     \<lparr> llm_summary = None, llm_entities = None \<rparr>
     [cand ''http://example.com/big.jpg'' ''Jane'']
   = Inr \<lparr> r_episode_title = ''Episode'', r_episode_url = ''http://example.com/episode'',
           r_summary = [], r_entities = [],
           r_allImages = [\<lparr> d_url = ''http://example.com/big.jpg'', d_alt = ''Jane'',
                             d_caption = [],
                             d_sourcePageUrl = ''http://example.com/episode'',
                             d_attribution = ''example.com'', d_relevance = None,
                             d_people_shown = None, d_date = None, d_location = None \<rparr>] \<rparr>
   \<and> shape_entity (resolve_ref_json URL_table [cand ''http://example.com/big.jpg'' ''Jane''])
         (jane\<lparr>in_images := None\<rparr>)
       = Inr \<lparr> e_name = Some ''Jane Doe'', e_type = Some ''Person'', e_role = [],
               e_description = Some ''The victim.'', e_pronouns = [], e_images = [] \<rparr>
   \<and> (\<exists>res. build_result
                (resolve_ref_json URL_table [cand ''http://example.com/big.jpg'' ''Jane''])
                URL_table ''Episode'' ''http://example.com/episode''
                \<lparr> llm_summary = None, llm_entities = Some [jane\<lparr>in_images := None\<rparr>] \<rparr>
                [cand ''http://example.com/big.jpg'' ''Jane''] = Inr res
            \<and> r_summary res = []
            \<and> r_entities res
                = [\<lparr> e_name = Some ''Jane Doe'', e_type = Some ''Person'', e_role = [],
                      e_description = Some ''The victim.'', e_pronouns = [],
                      e_images = [] \<rparr>])"
proof -
  let ?resolve = "resolve_ref_json URL_table [cand ''http://example.com/big.jpg'' ''Jane'']"
  let ?listed = "[cand ''http://example.com/big.jpg'' ''Jane'']"
  let ?jane = "jane\<lparr>in_images := None\<rparr>"
  let ?shaped = "\<lparr> e_name = Some ''Jane Doe'', e_type = Some ''Person'', e_role = [],
                   e_description = Some ''The victim.'', e_pronouns = [], e_images = [] \<rparr>"
  let ?r = "\<lparr> llm_summary = None, llm_entities = Some [?jane] \<rparr>"
  have absent: "build_result ?resolve URL_table ''Episode'' ''http://example.com/episode''
       \<lparr> llm_summary = None, llm_entities = None \<rparr> ?listed
     = Inr \<lparr> r_episode_title = ''Episode'', r_episode_url = ''http://example.com/episode'',
           r_summary = [], r_entities = [],
           r_allImages = [\<lparr> d_url = ''http://example.com/big.jpg'', d_alt = ''Jane'',
                             d_caption = [],
                             d_sourcePageUrl = ''http://example.com/episode'',
                             d_attribution = ''example.com'', d_relevance = None,
                             d_people_shown = None, d_date = None, d_location = None \<rparr>] \<rparr>
     \<and> shape_entity ?resolve ?jane = Inr ?shaped"
    using missing_fields_default
            [where r = "\<lparr> llm_summary = None, llm_entities = None \<rparr>"
               and resolve = ?resolve
               and parse = URL_table and t = "''Episode''" and s = "''http://example.com/episode''"
               and listed = ?listed and e = ?jane]
          run_all_missing
    by (simp add: orDefault_def jane_def)
  note one = missing_fields_default
               [where r = ?r and resolve = ?resolve and parse = URL_table and t = "''Episode''"
                  and s = "''http://example.com/episode''" and listed = ?listed
                  and uniqueImages = ?listed and e = ?jane]
  have parses: "\<forall>img \<in> set ?listed \<union> set ?listed. URL_table (sourcePageUrl img) None \<noteq> None"
    using run_candidate_parses by simp
  from one parses obtain res where
    res: "build_result ?resolve URL_table ''Episode'' ''http://example.com/episode'' ?r ?listed
            = Inr res"
    by blast
  from one res have summary: "r_summary res = []"
    by simp
  from one res have "length (r_entities res) = length [?jane]
        \<and> (\<forall>i<length [?jane]. shape_entity ?resolve ([?jane] ! i) = Inr (r_entities res ! i))"
    by simp
  then have "length (r_entities res) = 1" and "shape_entity ?resolve ?jane = Inr (r_entities res ! 0)"
    by simp_all
  with absent have "length (r_entities res) = 1" and "r_entities res ! 0 = ?shaped"
    by simp_all
  then have "r_entities res = [?shaped]"
    by (cases "r_entities res") simp_all
  with res summary absent show ?thesis by blast
qed

section \<open>Deduplication keeps first occurrences\<close>

lemma dedup_loop_filter:
  "dedup_loop xs seen out =
     out @ map (\<lambda>i. xs ! i) [i \<leftarrow> [0..<length xs]. url (xs ! i) \<notin> seen \<union> url ` set (take i xs)]"
proof (induction xs arbitrary: seen out)
  case Nil
  then show ?case by simp
next
  case (Cons x xs)
  have up: "[0..<length (x # xs)] = 0 # map Suc [0..<length xs]"
    by (simp add: upt_conv_Cons map_Suc_upt del: upt_Suc)
  show ?case
    by (simp only: up dedup_loop.simps Cons.IH)
       (auto simp: filter_map comp_def intro!: arg_cong2[where f = map] filter_cong)
qed

lemma dedup_loop_distinct:
  "distinct (map url out) \<Longrightarrow> url ` set out \<subseteq> seen \<Longrightarrow>
   distinct (map url (dedup_loop xs seen out))"
proof (induction xs arbitrary: seen out)
  case Nil
  then show ?case by simp
next
  case (Cons x xs)
  show ?case
  proof (cases "url x \<in> seen")
    case True
    with Cons show ?thesis by simp
  next
    case False
    have "distinct (map url (out @ [x]))"
      using Cons.prems False by auto
    moreover have "url ` set (out @ [x]) \<subseteq> insert (url x) seen"
      using Cons.prems by auto
    ultimately have "distinct (map url (dedup_loop xs (insert (url x) seen) (out @ [x])))"
      by (rule Cons.IH)
    with False show ?thesis by simp
  qed
qed

lemma dedup_loop_fixed:
  "distinct (map url xs) \<Longrightarrow> url ` set xs \<inter> seen = {} \<Longrightarrow> dedup_loop xs seen out = out @ xs"
  by (induction xs arbitrary: seen out) auto

lemma deduplicate_distinct: "distinct (map url (deduplicate xs))"
  unfolding deduplicate_def by (rule dedup_loop_distinct) simp_all

text \<open>
  Claim C5. Deduplication keeps, in discovery order, exactly the candidates whose URL did
  not occur at an earlier position of the list (the first occurrence of each URL) and
  drops the later duplicates; the URLs of its output are pairwise different; and
  deduplicating its output again changes nothing.
\<close>

theorem deduplicate_first_occurrences:
  "deduplicate xs =
     map (\<lambda>i. xs ! i) [i \<leftarrow> [0..<length xs]. url (xs ! i) \<notin> url ` set (take i xs)]
   \<and> distinct (map url (deduplicate xs))
   \<and> deduplicate (deduplicate xs) = deduplicate xs"
proof -
  have d: "distinct (map url (deduplicate xs))"
    by (rule deduplicate_distinct)
  have "dedup_loop (deduplicate xs) {} [] = [] @ deduplicate xs"
    by (rule dedup_loop_fixed) (use d in simp_all)
  then have i: "deduplicate (deduplicate xs) = deduplicate xs"
    by (simp add: deduplicate_def)
  have f: "deduplicate xs =
     map (\<lambda>i. xs ! i) [i \<leftarrow> [0..<length xs]. url (xs ! i) \<notin> url ` set (take i xs)]"
    by (simp add: deduplicate_def dedup_loop_filter)
  from f d i show ?thesis by blast
qed

theorem deduplicate_first_occurrences_witness:
  "deduplicate [cand ''http://a/1.jpg'' ''first'', cand ''http://a/2.jpg'' ''second'',
                cand ''http://a/1.jpg'' ''third'']
     = [cand ''http://a/1.jpg'' ''first'', cand ''http://a/2.jpg'' ''second'']
   \<and> distinct (map url (deduplicate [cand ''http://a/1.jpg'' ''first'',
                cand ''http://a/2.jpg'' ''second'', cand ''http://a/1.jpg'' ''third'']))"
  using deduplicate_first_occurrences
          [of "[cand ''http://a/1.jpg'' ''first'', cand ''http://a/2.jpg'' ''second'',
                cand ''http://a/1.jpg'' ''third'']"]
  by (simp add: cand_def upt_conv_Cons)

section \<open>The crawl\<close>

lemma crawl_step_stream_fetched:
  "crawl_step_stream load parse net n i sourceUrl st = Inr st' \<Longrightarrow>
   cs_fetched st' = cs_fetched st @ [sourceUrl]"
  by (auto simp: crawl_step_stream_def Let_def
           split: option.splits fetch_outcome.splits if_splits sum.splits)

lemma crawl_step_stream_thrown:
  "crawl_step_stream load parse net n i sourceUrl st = Inl (err, st') \<Longrightarrow> st' = st"
  by (auto simp: crawl_step_stream_def Let_def
           split: option.splits fetch_outcome.splits if_splits sum.splits)

lemma crawl_stream_fetched:
  "crawl_stream load parse net n i links st = Inr st' \<Longrightarrow> cs_fetched st' = cs_fetched st @ links"
proof (induction links arbitrary: i st)
  case Nil
  then show ?case by simp
next
  case (Cons l links)
  then obtain st1 where s: "crawl_step_stream load parse net n i l st = Inr st1"
    and r: "crawl_stream load parse net n (i + 1) links st1 = Inr st'"
    by (auto split: sum.splits)
  from Cons.IH [OF r] crawl_step_stream_fetched [OF s] show ?case by simp
qed

lemma crawl_stream_thrown:
  "crawl_stream load parse net n i links st = Inl (err, st') \<Longrightarrow>
   \<exists>k. cs_fetched st' = cs_fetched st @ take k links"
proof (induction links arbitrary: i st)
  case Nil
  then show ?case by simp
next
  case (Cons l links)
  show ?case
  proof (cases "crawl_step_stream load parse net n i l st")
    case (Inl thrown)
    with Cons.prems have "thrown = (err, st')" by simp
    with Inl have "st' = st" using crawl_step_stream_thrown by blast
    then have "cs_fetched st' = cs_fetched st @ take 0 (l # links)" by simp
    then show ?thesis by blast
  next
    case (Inr st1)
    with Cons.prems have "crawl_stream load parse net n (i + 1) links st1 = Inl (err, st')"
      by simp
    from Cons.IH [OF this] obtain k where "cs_fetched st' = cs_fetched st1 @ take k links"
      by blast
    with crawl_step_stream_fetched [OF Inr]
    have "cs_fetched st' = cs_fetched st @ take (Suc k) (l # links)" by simp
    then show ?thesis by blast
  qed
qed

lemma crawl_json_fetched:
  "cs_fetched (crawl_json parse net links st) = cs_fetched st @ links"
proof (induction links arbitrary: st)
  case Nil
  then show ?case by simp
next
  case (Cons l links)
  have "cs_fetched (crawl_step_json parse net l st) = cs_fetched st @ [l]"
    by (auto simp: crawl_step_json_def Let_def split: fetch_outcome.splits sum.splits)
  with Cons.IH [of "crawl_step_json parse net l st"] show ?case by simp
qed

lemma finish_stream_fetched:
  "fetched (finish_stream parse client json_parse seedUrl episodeData st) = cs_fetched st"
  by (simp add: finish_stream_def Let_def split: sum.splits)

lemma finish_json_fetched:
  "fetched_json (finish_json parse call json_parse seedUrl episodeTitle episodeText st)
     = cs_fetched st"
  by (simp add: finish_json_def Let_def split: sum.splits api_outcome.splits)

lemma sourceLinks_bounded:
  "length (sourceLinks (extractEpisodeData load parse html seedUrl)) \<le> maxSources CONFIG_stream"
  by (simp add: extractEpisodeData_def Let_def)

lemma POST_stream_fetched:
  "fetched (POST_stream load parse net client json_parse api_key req) = []
   \<or> (\<exists>seedUrl sources. req = Inr (Some seedUrl)
         \<and> fetched (POST_stream load parse net client json_parse api_key req) = seedUrl # sources
         \<and> length sources \<le> maxSources CONFIG_stream)"
proof (cases req)
  case (Inl err)
  then show ?thesis by (simp add: POST_stream_def)
next
  case (Inr url_field)
  show ?thesis
  proof (cases "truthy url_field \<and> truthy api_key")
    case False
    with Inr show ?thesis by (auto simp: POST_stream_def)
  next
    case True
    then obtain seedUrl where u: "url_field = Some seedUrl"
      by (auto simp: truthy_def split: option.splits)
    show ?thesis
    proof (cases "net 0 seedUrl")
      case (Rejects err)
      with Inr True u show ?thesis by (simp add: POST_stream_def)
    next
      case (Resolves episodeResponse)
      show ?thesis
      proof (cases "ok episodeResponse")
        case False
        with Inr True u Resolves show ?thesis by (simp add: POST_stream_def)
      next
        case ok: True
        show ?thesis
        proof (cases "body episodeResponse")
          case (Inl err)
          with Inr True u Resolves ok show ?thesis by (simp add: POST_stream_def)
        next
          case html: (Inr episodeHtml)
          let ?data = "extractEpisodeData load parse episodeHtml seedUrl"
          let ?st0 = "\<lparr> cs_sent = [STATUS ''Fetching episode page...'']
                          @ [STATUS (''Found episode: '' @ ep_title ?data),
                             STATUS (''Found '' @ show_nat (length (sourceLinks ?data))
                                     @ '' source links'')],
                         cs_fetched = [seedUrl], cs_sourcePages = [],
                         cs_allImages = extractImagesFromPage load parse episodeHtml seedUrl
                                          (ep_title ?data) \<rparr>"
          let ?crawl = "crawl_stream load parse net (length (sourceLinks ?data)) 0
                          (sourceLinks ?data) ?st0"
          have run: "POST_stream load parse net client json_parse api_key req =
                       (case ?crawl of
                          Inl (err, st) \<Rightarrow>
                            \<lparr> sent = cs_sent st @ [RESULT (Error (''Unexpected error: '' @ err))],
                              fetched = cs_fetched st \<rparr>
                        | Inr st \<Rightarrow> finish_stream parse client json_parse seedUrl ?data st)"
            using Inr True u Resolves ok html by (simp add: POST_stream_def Let_def)
          show ?thesis
          proof (cases ?crawl)
            case (Inl thrown)
            obtain err st where t: "thrown = (err, st)" by (cases thrown)
            from crawl_stream_thrown [OF Inl [unfolded t]] obtain k where
              "cs_fetched st = [seedUrl] @ take k (sourceLinks ?data)" by auto
            moreover have "length (take k (sourceLinks ?data)) \<le> maxSources CONFIG_stream"
              using sourceLinks_bounded [of load parse episodeHtml seedUrl] by simp
            ultimately show ?thesis
              using run Inl t Inr u by simp
          next
            case st: (Inr st)
            from crawl_stream_fetched [OF st] have "cs_fetched st = [seedUrl] @ sourceLinks ?data"
              by simp
            then show ?thesis
              using run st Inr u sourceLinks_bounded [of load parse episodeHtml seedUrl]
              by (simp add: finish_stream_fetched)
          qed
        qed
      qed
    qed
  qed
qed

lemma POST_json_fetched:
  "fetched_json (POST_json parse net call json_parse api_key req) = []
   \<or> (\<exists>seedUrl sources. req = Inr (Some seedUrl)
         \<and> fetched_json (POST_json parse net call json_parse api_key req) = seedUrl # sources
         \<and> length sources \<le> maxSources CONFIG_json)"
proof (cases req)
  case (Inl err)
  then show ?thesis by (simp add: POST_json_def)
next
  case (Inr url_field)
  show ?thesis
  proof (cases "truthy url_field \<and> truthy api_key")
    case False
    with Inr show ?thesis by (auto simp: POST_json_def)
  next
    case True
    then obtain seedUrl where u: "url_field = Some seedUrl"
      by (auto simp: truthy_def split: option.splits)
    show ?thesis
    proof (cases "net 0 seedUrl")
      case (Rejects err)
      with Inr True u show ?thesis by (simp add: POST_json_def)
    next
      case (Resolves episodeResponse)
      show ?thesis
      proof (cases "ok episodeResponse")
        case False
        with Inr True u Resolves show ?thesis by (simp add: POST_json_def)
      next
        case ok: True
        show ?thesis
        proof (cases "body episodeResponse")
          case (Inl err)
          with Inr True u Resolves ok show ?thesis by (simp add: POST_json_def)
        next
          case html: (Inr episodeHtml)
          show ?thesis
            using Inr True u Resolves ok html
            by (simp add: POST_json_def Let_def finish_json_fetched crawl_json_fetched)
        qed
      qed
    qed
  qed
qed

text \<open>
  Claim C6. When the seed fetch fails (it rejects, as on a network error or the timeout's
  abort, or it answers with a status outside 200 to 299), the streaming endpoint sends the
  one progress line and then a result that is an error message, the JSON endpoint answers
  with an error message and status 400 or 500, neither carries any data of the page, and
  the seed URL is the only URL fetched.
\<close>

theorem seed_failure_is_fatal:
  assumes "seedUrl \<noteq> []" and "truthy api_key"
    and "case net 0 seedUrl of Rejects err \<Rightarrow> True | Resolves response \<Rightarrow> \<not> ok response"
  shows "(\<exists>message. sent (POST_stream load parse net client json_parse api_key (Inr (Some seedUrl)))
                       = [STATUS ''Fetching episode page...'', RESULT (Error message)])
     \<and> fetched (POST_stream load parse net client json_parse api_key (Inr (Some seedUrl)))
         = [seedUrl]
     \<and> (\<exists>message. answer (POST_json parse net call json_parse api_key (Inr (Some seedUrl)))
                       = Error message)
     \<and> http_status (POST_json parse net call json_parse api_key (Inr (Some seedUrl)))
         \<in> {400, 500}
     \<and> fetched_json (POST_json parse net call json_parse api_key (Inr (Some seedUrl)))
         = [seedUrl]"
proof (cases "net 0 seedUrl")
  case (Rejects err)
  with assms show ?thesis
    by (simp add: POST_stream_def POST_json_def truthy_def)
next
  case (Resolves response)
  with assms have "\<not> ok response" by simp
  with assms Resolves show ?thesis
    by (simp add: POST_stream_def POST_json_def truthy_def)
qed

lemma run_404:
  "''http://example.com/episode'' \<noteq> [] \<and> truthy (Some ''sk-test'')
   \<and> (case net_404 0 ''http://example.com/episode'' of
         Rejects err \<Rightarrow> True | Resolves response \<Rightarrow> \<not> ok response)
   \<and> POST_stream load_table URL_table net_404 sdk_reply json_table (Some ''sk-test'')
         (Inr (Some ''http://example.com/episode''))
       = \<lparr> sent = [STATUS ''Fetching episode page...'',
                    RESULT (Error ''Failed to fetch episode: Error: HTTP 404'')],
           fetched = [''http://example.com/episode''] \<rparr>
   \<and> POST_json URL_table net_404 api_reply json_table (Some ''sk-test'')
         (Inr (Some ''http://example.com/episode''))
       = \<lparr> answer = Error ''Failed to fetch episode: HTTP 404'', http_status = 400,
           fetched_json = [''http://example.com/episode''] \<rparr>"
  by code_simp

theorem seed_failure_is_fatal_witness:
  "sent (POST_stream load_table URL_table net_404 sdk_reply json_table (Some ''sk-test'')
           (Inr (Some ''http://example.com/episode'')))
     = [STATUS ''Fetching episode page...'',
        RESULT (Error ''Failed to fetch episode: Error: HTTP 404'')]
   \<and> fetched (POST_stream load_table URL_table net_404 sdk_reply json_table (Some ''sk-test'')
           (Inr (Some ''http://example.com/episode''))) = [''http://example.com/episode'']
   \<and> answer (POST_json URL_table net_404 api_reply json_table (Some ''sk-test'')
           (Inr (Some ''http://example.com/episode'')))
       = Error ''Failed to fetch episode: HTTP 404''
   \<and> fetched_json (POST_json URL_table net_404 api_reply json_table (Some ''sk-test'')
           (Inr (Some ''http://example.com/episode''))) = [''http://example.com/episode'']"
  using seed_failure_is_fatal
          [of "''http://example.com/episode''" "Some ''sk-test''" net_404 load_table URL_table
              sdk_reply json_table api_reply]
        run_404
  by simp

text \<open>
  Claim C7, as the code has it. When the fetch of a source link rejects, or answers with a
  status outside 200 to 299, or with a content type header that does not contain the text
  \<open>text/html\<close> (or with none), that round of the loop adds no source page record and no
  image candidate, on either endpoint, and the loop goes on with the remaining links from
  the state it had, the fetch being logged. On the streaming endpoint the round first takes
  the host name of the link; the statement there is for a link that parses as a URL.
\<close>

theorem failed_source_is_skipped:
  assumes "case net (length (cs_fetched st)) sourceUrl of
             Rejects err \<Rightarrow> True
           | Resolves response \<Rightarrow>
               \<not> ok response
               \<or> \<not> str_includes (orDefault (content_type response) []) ''text/html''"
  shows "(\<forall>u. parse sourceUrl None = Some u \<longrightarrow>
            (\<exists>st1. crawl_step_stream load parse net n i sourceUrl st = Inr st1
                  \<and> cs_sourcePages st1 = cs_sourcePages st
                  \<and> cs_allImages st1 = cs_allImages st
                  \<and> cs_fetched st1 = cs_fetched st @ [sourceUrl]
                  \<and> crawl_stream load parse net n i (sourceUrl # rest) st
                      = crawl_stream load parse net n (i + 1) rest st1))
     \<and> crawl_step_json parse net sourceUrl st = st\<lparr>cs_fetched := cs_fetched st @ [sourceUrl]\<rparr>
     \<and> crawl_json parse net (sourceUrl # rest) st
         = crawl_json parse net rest (st\<lparr>cs_fetched := cs_fetched st @ [sourceUrl]\<rparr>)"
proof -
  have json: "crawl_step_json parse net sourceUrl st
                = st\<lparr>cs_fetched := cs_fetched st @ [sourceUrl]\<rparr>"
    using assms
    by (auto simp: crawl_step_json_def Let_def split: fetch_outcome.splits)
  have stream: "\<exists>st1. crawl_step_stream load parse net n i sourceUrl st = Inr st1
                  \<and> cs_sourcePages st1 = cs_sourcePages st
                  \<and> cs_allImages st1 = cs_allImages st
                  \<and> cs_fetched st1 = cs_fetched st @ [sourceUrl]
                  \<and> crawl_stream load parse net n i (sourceUrl # rest) st
                      = crawl_stream load parse net n (i + 1) rest st1"
    if "parse sourceUrl None = Some u" for u
    using assms that
    by (auto simp: crawl_step_stream_def Let_def split: fetch_outcome.splits)
  from json stream show ?thesis by simp
qed

lemma run_pdf:
  "(case net_table (length (cs_fetched crawl_start)) ''http://archive.example.net/report'' of
      Rejects err \<Rightarrow> True
    | Resolves response \<Rightarrow>
        \<not> ok response \<or> \<not> str_includes (orDefault (content_type response) []) ''text/html'')
   \<and> URL_table ''http://archive.example.net/report'' None
       = Some (mk_url ''http'' ''archive.example.net'' ''/report'' None)"
  by code_simp

theorem failed_source_is_skipped_witness:
  "crawl_step_json URL_table net_table ''http://archive.example.net/report'' crawl_start
     = crawl_start\<lparr>cs_fetched := cs_fetched crawl_start @ [''http://archive.example.net/report'']\<rparr>
   \<and> (\<exists>st1. crawl_step_stream load_table URL_table net_table 3 0
                ''http://archive.example.net/report'' crawl_start = Inr st1
            \<and> cs_sourcePages st1 = cs_sourcePages crawl_start
            \<and> cs_allImages st1 = cs_allImages crawl_start
            \<and> cs_fetched st1 = cs_fetched crawl_start @ [''http://archive.example.net/report'']
            \<and> crawl_stream load_table URL_table net_table 3 0
                 [''http://archive.example.net/report'', ''http://example.com/sources''] crawl_start
               = crawl_stream load_table URL_table net_table 3 (0 + 1)
                 [''http://example.com/sources''] st1)"
proof -
  have skipped: "case net_table (length (cs_fetched crawl_start))
                        ''http://archive.example.net/report'' of
                   Rejects err \<Rightarrow> True
                 | Resolves response \<Rightarrow>
                     \<not> ok response
                     \<or> \<not> str_includes (orDefault (content_type response) []) ''text/html''"
    using run_pdf by (rule conjunct1)
  have parses: "URL_table ''http://archive.example.net/report'' None
                  = Some (mk_url ''http'' ''archive.example.net'' ''/report'' None)"
    using run_pdf by (rule conjunct2)
  from failed_source_is_skipped
         [where net = net_table and st = crawl_start
            and sourceUrl = "''http://archive.example.net/report''"
            and parse = URL_table and load = load_table and n = 3 and i = 0
            and rest = "[''http://example.com/sources'']", OF skipped]
       parses
  show ?thesis by blast
qed

text \<open>
  The claim as the specification words it fails: a response whose content type is not
  HTML, \<open>application/json\<close>, but whose header holds the text \<open>text/html\<close> in a
  parameter, is read as a page on both endpoints. The round adds a source page record and
  the image candidate found in the body.
\<close>

theorem quoted_html_content_type_counterexample:
  \<open>(case net_note 1 ''http://archive.example.net/report'' of
      Rejects err \<Rightarrow> None
    | Resolves response \<Rightarrow> content_type response)
     = Some ''application/json; note="text/html"''
   \<and> cs_sourcePages crawl_start = []
   \<and> map url (cs_allImages crawl_start) = [''http://example.com/big.jpg'']
   \<and> map sp_url (cs_sourcePages (crawl_step_json URL_table net_note
                                    ''http://archive.example.net/report'' crawl_start))
       = [''http://archive.example.net/report'']
   \<and> map url (cs_allImages (crawl_step_json URL_table net_note
                               ''http://archive.example.net/report'' crawl_start))
       = [''http://example.com/big.jpg'', ''http://news.example.org/photo.jpg'']
   \<and> (case crawl_step_stream load_table URL_table net_note 1 0
              ''http://archive.example.net/report'' crawl_start of
         Inl thrown \<Rightarrow> ([], [])
       | Inr st1 \<Rightarrow> (map sp_url (cs_sourcePages st1), map url (cs_allImages st1)))
       = ([''http://archive.example.net/report''],
          [''http://example.com/big.jpg'', ''http://news.example.org/photo.jpg''])\<close>
  by code_simp

text \<open>
  Claim C9. In every run, the first URL fetched is the seed URL of the request, and the
  fetches after it (one per source link tried) number at most the configured maximum: 12
  on the streaming endpoint, 10 on the JSON endpoint.
\<close>

theorem source_fetches_bounded:
  "length (tl (fetched (POST_stream load parse net client json_parse api_key req)))
     \<le> maxSources CONFIG_stream
   \<and> maxSources CONFIG_stream = 12
   \<and> length (tl (fetched_json (POST_json parse net call json_parse api_key req)))
     \<le> maxSources CONFIG_json
   \<and> maxSources CONFIG_json = 10
   \<and> (\<forall>first \<in> set (take 1 (fetched (POST_stream load parse net client json_parse api_key req))).
         req = Inr (Some first))
   \<and> (\<forall>first \<in> set (take 1 (fetched_json (POST_json parse net call json_parse api_key req))).
         req = Inr (Some first))"
  using POST_stream_fetched [of load parse net client json_parse api_key req]
        POST_json_fetched [of parse net call json_parse api_key req]
  by (auto simp: CONFIG_stream_def CONFIG_json_def)

lemma run_many_stream:
  "fetched (POST_stream load_many URL_many net_many sdk_down json_table (Some ''sk-test'')
              (Inr (Some ''http://example.com/episode'')))
   = ''http://example.com/episode'' # take 12 many_links"
  by code_simp

lemma run_many_json:
  "fetched_json (POST_json URL_many net_many api_down json_table (Some ''sk-test'')
              (Inr (Some ''http://example.com/episode'')))
   = ''http://example.com/episode'' # take 10 many_links"
  by code_simp

theorem source_fetches_bounded_witness:
  "length many_links = 13
   \<and> fetched (POST_stream load_many URL_many net_many sdk_down json_table (Some ''sk-test'')
              (Inr (Some ''http://example.com/episode'')))
       = ''http://example.com/episode'' # take 12 many_links
   \<and> fetched_json (POST_json URL_many net_many api_down json_table (Some ''sk-test'')
              (Inr (Some ''http://example.com/episode'')))
       = ''http://example.com/episode'' # take 10 many_links
   \<and> length (tl (fetched (POST_stream load_many URL_many net_many sdk_down json_table
                       (Some ''sk-test'') (Inr (Some ''http://example.com/episode''))))) \<le> 12
   \<and> length (tl (fetched_json (POST_json URL_many net_many api_down json_table
                       (Some ''sk-test'') (Inr (Some ''http://example.com/episode''))))) \<le> 10"
  using source_fetches_bounded
          [of load_many URL_many net_many sdk_down json_table "Some ''sk-test''"
              "Inr (Some ''http://example.com/episode'')" api_down]
        run_many_stream run_many_json
  by (simp add: many_links_def)

end
